theory Spec2Isabelle
  imports Main
begin

section \<open>JavaScript values\<close>

text \<open>
  Every step function of the application is built by
  \<^verbatim>\<open>new Function(["e", "idx", "list"], text)\<close>, so a function value is
  its parameter names and its body text. What a body computes is the host's business:
  the JavaScript engine is a parameter of the model (\<open>engine\<close> below).
\<close>

datatype jsfun = Function (params: "string list") (body: string)

text \<open>
  The values the pipeline handles. Numbers are the integers (no fractions, no NaN);
  \<open>VNative n\<close> is the built-in function named \<open>n\<close> (such as \<^verbatim>\<open>Object\<close>, which
  every object inherits as its \<^verbatim>\<open>constructor\<close>); \<open>VHost\<close> is a host object such
  as an Ace editor handle. An object is the list of its own properties in insertion order.
\<close>

datatype jsval =
    VUndefined
  | VNull
  | VBool bool
  | VNum int
  | VStr string
  | VArr "jsval list"
  | VObj "(string \<times> jsval) list"
  | VFun jsfun
  | VNative string
  | VHost

datatype exn = SyntaxError | TypeError | FetchError | Thrown jsval

text \<open>
  The host engine: \<open>parses ps b\<close> says whether \<open>b\<close> is a well-formed function
  body for the parameters \<open>ps\<close> (otherwise \<^verbatim>\<open>new Function\<close> throws a
  SyntaxError); \<open>run ps b args\<close> is the outcome of calling the compiled function on
  \<open>args\<close>, a value or the exception it throws; \<open>inherited v k\<close> is what the
  prototype chain of \<open>v\<close> holds under the key \<open>k\<close>, undefined when it holds nothing
  (it is asked only for a key that \<open>v\<close> does not have as its own property). Step
  functions are taken to be pure.
\<close>

record engine =
  parses :: "string list \<Rightarrow> string \<Rightarrow> bool"
  run :: "string list \<Rightarrow> string \<Rightarrow> jsval list \<Rightarrow> exn + jsval"
  inherited :: "jsval \<Rightarrow> string \<Rightarrow> jsval"

definition new_Function :: "engine \<Rightarrow> string list \<Rightarrow> string \<Rightarrow> exn + jsfun" where
  "new_Function eng ps b = (if parses eng ps b then Inr (Function ps b) else Inl SyntaxError)"

definition call :: "engine \<Rightarrow> jsfun \<Rightarrow> jsval list \<Rightarrow> exn + jsval" where
  "call eng f args = run eng (params f) (body f) args"

fun typeof :: "jsval \<Rightarrow> string" where
  "typeof VUndefined = ''undefined''"
| "typeof VNull = ''object''"
| "typeof (VBool b) = ''boolean''"
| "typeof (VNum n) = ''number''"
| "typeof (VStr s) = ''string''"
| "typeof (VArr xs) = ''object''"
| "typeof (VObj ps) = ''object''"
| "typeof (VFun f) = ''function''"
| "typeof (VNative n) = ''function''"
| "typeof VHost = ''object''"

text \<open>\<open>truthy v\<close> is what \<^verbatim>\<open>if (v)\<close> tests; \<^verbatim>\<open>!v\<close> is its negation.\<close>

fun truthy :: "jsval \<Rightarrow> bool" where
  "truthy VUndefined = False"
| "truthy VNull = False"
| "truthy (VBool b) = b"
| "truthy (VNum n) = (n \<noteq> 0)"
| "truthy (VStr s) = (s \<noteq> [])"
| "truthy (VArr xs) = True"
| "truthy (VObj ps) = True"
| "truthy (VFun f) = True"
| "truthy (VNative n) = True"
| "truthy VHost = True"

fun Array_isArray :: "jsval \<Rightarrow> bool" where
  "Array_isArray (VArr xs) = True"
| "Array_isArray v = False"

section \<open>Strings\<close>

definition newline :: char where
  "newline = CHR 0x0A"

fun join :: "string \<Rightarrow> string list \<Rightarrow> string" where
  "join sep [] = []"
| "join sep [x] = x"
| "join sep (x # y # ys) = x @ sep @ join sep (y # ys)"

text \<open>\<^verbatim>\<open>s.indexOf(c)\<close> and \<^verbatim>\<open>s.lastIndexOf(c)\<close> for a one-character \<open>c\<close>: -1 when absent.\<close>

fun indexOf :: "string \<Rightarrow> char \<Rightarrow> int" where
  "indexOf [] c = - 1"
| "indexOf (x # xs) c =
     (if x = c then 0 else (let i = indexOf xs c in if i < 0 then - 1 else i + 1))"

definition lastIndexOf :: "string \<Rightarrow> char \<Rightarrow> int" where
  "lastIndexOf s c =
     (let i = indexOf (rev s) c in if i < 0 then - 1 else int (length s) - 1 - i)"

text \<open>\<^verbatim>\<open>s.slice(start, fin)\<close>: a negative index counts from the end, both are clamped.\<close>

definition slice :: "string \<Rightarrow> int \<Rightarrow> int \<Rightarrow> string" where
  "slice s start fin =
     (let n = int (length s);
          from = (if start < 0 then max (n + start) 0 else min start n);
          to = (if fin < 0 then max (n + fin) 0 else min fin n)
      in take (nat (to - from)) (drop (nat from) s))"

text \<open>The white space \<^verbatim>\<open>trim\<close> strips, among the one-byte characters.\<close>

definition is_space :: "char \<Rightarrow> bool" where
  "is_space c = (c \<in> {CHR 0x09, CHR 0x0A, CHR 0x0B, CHR 0x0C, CHR 0x0D, CHR 0x20})"

definition trim :: "string \<Rightarrow> string" where
  "trim s = rev (dropWhile is_space (rev (dropWhile is_space s)))"

text \<open>A number as a property key or an array index: its decimal numeral.\<close>

definition digit :: "nat \<Rightarrow> char" where
  "digit d = char_of (d + 48)"

fun decimal :: "nat \<Rightarrow> string" where
  "decimal n = (if 10 \<le> n then decimal (n div 10) @ [digit (n mod 10)] else [digit n])"

declare decimal.simps [simp del]

definition Number_toString :: "int \<Rightarrow> string" where
  "Number_toString i = (if 0 \<le> i then decimal (nat i) else CHR ''-'' # decimal (nat (- i)))"

section \<open>Step function codec\<close>

text \<open>
  \<^verbatim>\<open>Function.prototype.toString\<close> of a function made by \<^verbatim>\<open>new Function\<close>:
  the source text the constructor assembles from the parameters and the body.
\<close>

definition Function_toString :: "jsfun \<Rightarrow> string" where
  "Function_toString f =
     ''function anonymous('' @ join '','' (params f) @ [newline] @ '') {'' @ [newline]
       @ body f @ [newline] @ ''}''"

text \<open>The source text of a built-in function.\<close>

definition Native_toString :: "string \<Rightarrow> string" where
  "Native_toString n = ''function '' @ n @ ''() { [native code] }''"

text \<open>
  \<^verbatim>\<open>getFunctionContent\<close>: \<open>getFunctionContent_text\<close> is what it does with the text
  \<^verbatim>\<open>func.toString()\<close> returns.
\<close>

definition getFunctionContent_text :: "string \<Rightarrow> string" where
  "getFunctionContent_text text =
     trim (slice text (indexOf text (CHR ''{'') + 1) (lastIndexOf text (CHR ''}'')))"

definition getFunctionContent :: "jsfun \<Rightarrow> string" where
  "getFunctionContent func = getFunctionContent_text (Function_toString func)"

text \<open>The replacer of \<^verbatim>\<open>JSON.stringify\<close>.\<close>

definition sterilizeFunction :: "string \<Rightarrow> jsval \<Rightarrow> jsval" where
  "sterilizeFunction key v =
     (case (key = ''func'', v) of
        (True, VFun f) \<Rightarrow> VStr (getFunctionContent f)
      | (True, VNative n) \<Rightarrow> VStr (getFunctionContent_text (Native_toString n))
      | _ \<Rightarrow> if key = ''editor'' then VUndefined else v)"

text \<open>The reviver of \<^verbatim>\<open>JSON.parse\<close>; the constructor's SyntaxError propagates.\<close>

definition desterilizeFunction :: "engine \<Rightarrow> string \<Rightarrow> jsval \<Rightarrow> exn + jsval" where
  "desterilizeFunction eng key v =
     (case (key = ''func'', v) of
        (True, VStr s) \<Rightarrow>
          (case new_Function eng [''e'', ''idx'', ''list''] s of
             Inl err \<Rightarrow> Inl err
           | Inr f \<Rightarrow> Inr (VFun f))
      | _ \<Rightarrow> Inr v)"

section \<open>Property access and array methods\<close>

text \<open>
  \<^verbatim>\<open>String(v)\<close>, which also turns the value a \<^verbatim>\<open>select\<close> accessor returns
  into a property key.
\<close>

fun ToString :: "jsval \<Rightarrow> string" where
  "ToString VUndefined = ''undefined''"
| "ToString VNull = ''null''"
| "ToString (VBool b) = (if b then ''true'' else ''false'')"
| "ToString (VNum n) = Number_toString n"
| "ToString (VStr s) = s"
| "ToString (VArr xs) =
     join '','' (map (\<lambda>x. case x of VUndefined \<Rightarrow> [] | VNull \<Rightarrow> [] | _ \<Rightarrow> ToString x) xs)"
| "ToString (VObj ps) = ''[object Object]''"
| "ToString (VFun f) = Function_toString f"
| "ToString (VNative n) = Native_toString n"
| "ToString VHost = ''[object Object]''"

text \<open>
  \<^verbatim>\<open>data[key]\<close>. An object has its own properties, an array has \<^verbatim>\<open>length\<close>
  and one property per index, named by the index in decimal; a key that is none of these is
  looked up along the prototype chain, which is the host's (\<open>inh\<close>, the \<open>inherited\<close>
  of the engine).
\<close>

definition get_property :: "(jsval \<Rightarrow> string \<Rightarrow> jsval) \<Rightarrow> jsval \<Rightarrow> jsval \<Rightarrow> jsval" where
  "get_property inh data key =
     (let k = ToString key in
      case data of
        VArr xs \<Rightarrow>
          (if k = ''length'' then VNum (int (length xs))
           else (case filter (\<lambda>i. decimal i = k) [0..<length xs] of
                   [] \<Rightarrow> inh data k
                 | i # _ \<Rightarrow> xs ! i))
      | VObj ps \<Rightarrow> (case map_of ps k of None \<Rightarrow> inh data k | Some v \<Rightarrow> v)
      | _ \<Rightarrow> inh data k)"

fun elements :: "jsval \<Rightarrow> jsval list" where
  "elements (VArr xs) = xs"
| "elements v = []"

text \<open>
  The array methods call their callback as \<^verbatim>\<open>f(element, index, array)\<close>, element
  by element; the first exception ends the call. \<open>call_each\<close> collects the results.
\<close>

fun call_each :: "engine \<Rightarrow> jsfun \<Rightarrow> jsval list \<Rightarrow> nat \<Rightarrow> jsval list \<Rightarrow> exn + jsval list" where
  "call_each eng f whole i [] = Inr []"
| "call_each eng f whole i (x # xs) =
     (case call eng f [x, VNum (int i), VArr whole] of
        Inl err \<Rightarrow> Inl err
      | Inr r \<Rightarrow>
          (case call_each eng f whole (Suc i) xs of
             Inl err \<Rightarrow> Inl err
           | Inr rs \<Rightarrow> Inr (r # rs)))"

definition Array_filter :: "engine \<Rightarrow> jsfun \<Rightarrow> jsval list \<Rightarrow> exn + jsval" where
  "Array_filter eng f xs =
     (case call_each eng f xs 0 xs of
        Inl err \<Rightarrow> Inl err
      | Inr rs \<Rightarrow> Inr (VArr (map fst (filter (\<lambda>(x, r). truthy r) (zip xs rs)))))"

definition Array_map :: "engine \<Rightarrow> jsfun \<Rightarrow> jsval list \<Rightarrow> exn + jsval" where
  "Array_map eng f xs =
     (case call_each eng f xs 0 xs of
        Inl err \<Rightarrow> Inl err
      | Inr rs \<Rightarrow> Inr (VArr rs))"

definition Array_flatMap :: "engine \<Rightarrow> jsfun \<Rightarrow> jsval list \<Rightarrow> exn + jsval" where
  "Array_flatMap eng f xs =
     (case call_each eng f xs 0 xs of
        Inl err \<Rightarrow> Inl err
      | Inr rs \<Rightarrow> Inr (VArr (concat (map (\<lambda>r. case r of VArr ys \<Rightarrow> ys | _ \<Rightarrow> [r]) rs))))"

section \<open>The pipeline executor\<close>

text \<open>
  A step. \<open>filter_editor\<close> is the text held by the step's Ace editor, when it has one;
  \<open>filter_type\<close> is the string the \<^verbatim>\<open>switch\<close> dispatches on.
\<close>

record Filter =
  filter_id :: string
  filter_editor :: "string option"
  filter_type :: string
  filter_func :: jsfun

text \<open>
  The loop of \<^verbatim>\<open>process\<close> (several sources) over the steps of the active group.
  \<open>Inr (Some data)\<close>: the loop ran to its end with \<open>data\<close>; \<open>Inr None\<close>: a
  \<^verbatim>\<open>select\<close> step returned from \<^verbatim>\<open>process\<close>; \<open>Inl err\<close>: a step function threw.
\<close>

fun process_filters :: "engine \<Rightarrow> jsval \<Rightarrow> Filter list \<Rightarrow> exn + jsval option" where
  "process_filters eng data [] = Inr (Some data)"
| "process_filters eng data (flt # rest) =
     (if filter_type flt = ''filter'' then
        (if \<not> Array_isArray data then process_filters eng data rest
         else (case Array_filter eng (filter_func flt) (elements data) of
                 Inl err \<Rightarrow> Inl err
               | Inr d \<Rightarrow> process_filters eng d rest))
      else if filter_type flt = ''flatmap'' then
        (if \<not> Array_isArray data then process_filters eng data rest
         else (case Array_flatMap eng (filter_func flt) (elements data) of
                 Inl err \<Rightarrow> Inl err
               | Inr d \<Rightarrow> process_filters eng d rest))
      else if filter_type flt = ''select'' then
        (if \<not> truthy data \<or> typeof data \<noteq> ''object'' then Inr None
         else (case call eng (filter_func flt) [] of
                 Inl err \<Rightarrow> Inl err
               | Inr key \<Rightarrow> process_filters eng (get_property (inherited eng) data key) rest))
      else if filter_type flt = ''map'' then
        (if \<not> Array_isArray data then process_filters eng data rest
         else (case Array_map eng (filter_func flt) (elements data) of
                 Inl err \<Rightarrow> Inl err
               | Inr d \<Rightarrow> process_filters eng d rest))
      else process_filters eng data rest)"

text \<open>The same loop in the single-source variant, whose \<^verbatim>\<open>switch\<close> has no flatmap case.\<close>

fun process_filters_single :: "engine \<Rightarrow> jsval \<Rightarrow> Filter list \<Rightarrow> exn + jsval option" where
  "process_filters_single eng data [] = Inr (Some data)"
| "process_filters_single eng data (flt # rest) =
     (if filter_type flt = ''filter'' then
        (if \<not> Array_isArray data then process_filters_single eng data rest
         else (case Array_filter eng (filter_func flt) (elements data) of
                 Inl err \<Rightarrow> Inl err
               | Inr d \<Rightarrow> process_filters_single eng d rest))
      else if filter_type flt = ''select'' then
        (if \<not> truthy data \<or> typeof data \<noteq> ''object'' then Inr None
         else (case call eng (filter_func flt) [] of
                 Inl err \<Rightarrow> Inl err
               | Inr key \<Rightarrow> process_filters_single eng (get_property (inherited eng) data key) rest))
      else if filter_type flt = ''map'' then
        (if \<not> Array_isArray data then process_filters_single eng data rest
         else (case Array_map eng (filter_func flt) (elements data) of
                 Inl err \<Rightarrow> Inl err
               | Inr d \<Rightarrow> process_filters_single eng d rest))
      else process_filters_single eng data rest)"

text \<open>
  What \<^verbatim>\<open>activeFilterGroup\<close> holds: an integer or NaN, the results of
  \<^verbatim>\<open>parseInt\<close>, or null, which is how a NaN that was saved reads back. (An integer
  too large for a double behaves as any index past the end.) \<open>index_key\<close> is the
  property name such a value stands for in \<^verbatim>\<open>this.filtersGroups[v]\<close>, and
  \<open>array_index\<close> the element it names, when it names one.
\<close>

datatype jsindex = Index int | NaN | Null

fun index_key :: "jsindex \<Rightarrow> string" where
  "index_key (Index n) = Number_toString n"
| "index_key NaN = ''NaN''"
| "index_key Null = ''null''"

fun array_index :: "jsindex \<Rightarrow> nat option" where
  "array_index (Index n) = (if 0 \<le> n then Some (nat n) else None)"
| "array_index NaN = None"
| "array_index Null = None"

text \<open>
  \<^verbatim>\<open>groups.at(v)\<close>: NaN and null count as 0 and a negative index counts from the
  end; \<open>None\<close> is undefined or null (out of range, a hole, or a stored null).
\<close>

definition groups_at :: "Filter list option list \<Rightarrow> jsindex \<Rightarrow> Filter list option" where
  "groups_at groups v =
     (let len = int (length groups);
          relative = (case v of Index n \<Rightarrow> n | NaN \<Rightarrow> 0 | Null \<Rightarrow> 0);
          k = (if 0 \<le> relative then relative else len + relative)
      in if k < 0 \<or> len \<le> k then None else groups ! nat k)"

text \<open>
  \<^verbatim>\<open>process\<close> of the single-source variant, as a function of the fields it reads:
  \<open>Inr (Some v)\<close> when it calls \<^verbatim>\<open>this.editor.set(v)\<close>, \<open>Inr None\<close> when it
  returns without the call. Absent content is \<open>VUndefined\<close>.
\<close>

definition process_single :: "engine \<Rightarrow> jsval \<Rightarrow> Filter list option list \<Rightarrow> jsindex \<Rightarrow> exn + jsval option" where
  "process_single eng content_value groups active =
     (let data = content_value in
      if \<not> truthy data then Inr None
      else (case groups_at groups active of
              None \<Rightarrow> Inr (Some data)
            | Some filters \<Rightarrow> process_filters_single eng data filters))"

section \<open>Persistence format\<close>

text \<open>
  \<^verbatim>\<open>JSON.stringify(value, sterilizeFunction)\<close> and \<^verbatim>\<open>JSON.parse(text, reviver)\<close>.
  The stored text is not modelled: \<open>localStorage\<close> holds the document as the tree the
  text denotes (\<open>VUndefined\<close> for a text that is no JSON document). \<open>serialize\<close> is
  the walk of \<^verbatim>\<open>JSON.stringify\<close>: the replacer sees a property before its value is
  descended into; an undefined or function value leaves an object and becomes null in an
  array. \<open>internalize\<close> is the walk of \<^verbatim>\<open>JSON.parse\<close>: the reviver sees a value
  after its parts.
\<close>

lemma sterilizeFunction_VArr: "sterilizeFunction key v = VArr xs \<Longrightarrow> v = VArr xs"
  by (auto simp: sterilizeFunction_def split: if_splits jsval.splits bool.splits)

lemma sterilizeFunction_VObj: "sterilizeFunction key v = VObj ps \<Longrightarrow> v = VObj ps"
  by (auto simp: sterilizeFunction_def split: if_splits jsval.splits bool.splits)

function serialize :: "string \<Rightarrow> jsval \<Rightarrow> jsval option"
  and serialize_array :: "nat \<Rightarrow> jsval list \<Rightarrow> jsval list"
  and serialize_object :: "(string \<times> jsval) list \<Rightarrow> (string \<times> jsval) list"
where
  "serialize key v =
     (case sterilizeFunction key v of
        VUndefined \<Rightarrow> None
      | VFun f \<Rightarrow> None
      | VNative n \<Rightarrow> None
      | VArr xs \<Rightarrow> Some (VArr (serialize_array 0 xs))
      | VObj ps \<Rightarrow> Some (VObj (serialize_object ps))
      | w \<Rightarrow> Some w)"
| "serialize_array i [] = []"
| "serialize_array i (x # xs) =
     (case serialize (decimal i) x of None \<Rightarrow> VNull | Some y \<Rightarrow> y) # serialize_array (Suc i) xs"
| "serialize_object [] = []"
| "serialize_object ((k, x) # ps) =
     (case serialize k x of
        None \<Rightarrow> serialize_object ps
      | Some y \<Rightarrow> (k, y) # serialize_object ps)"
  by pat_completeness auto
termination
  by (relation "measure (\<lambda>a. case a of
          Inl (key, v) \<Rightarrow> 2 * size v + 1
        | Inr (Inl (i, xs)) \<Rightarrow> 2 * size_list size xs
        | Inr (Inr ps) \<Rightarrow> 2 * size_list (size_prod (\<lambda>_. 0) size) ps)")
     (auto dest!: sterilizeFunction_VArr sterilizeFunction_VObj)

fun internalize :: "(string \<Rightarrow> jsval \<Rightarrow> exn + jsval) \<Rightarrow> string \<Rightarrow> jsval \<Rightarrow> exn + jsval"
  and internalize_array :: "(string \<Rightarrow> jsval \<Rightarrow> exn + jsval) \<Rightarrow> nat \<Rightarrow> jsval list \<Rightarrow> exn + jsval list"
  and internalize_object :: "(string \<Rightarrow> jsval \<Rightarrow> exn + jsval) \<Rightarrow> (string \<times> jsval) list \<Rightarrow> exn + (string \<times> jsval) list"
where
  "internalize reviver name (VArr xs) =
     (case internalize_array reviver 0 xs of
        Inl err \<Rightarrow> Inl err
      | Inr ys \<Rightarrow> reviver name (VArr ys))"
| "internalize reviver name (VObj ps) =
     (case internalize_object reviver ps of
        Inl err \<Rightarrow> Inl err
      | Inr qs \<Rightarrow> reviver name (VObj qs))"
| "internalize reviver name v = reviver name v"
| "internalize_array reviver i [] = Inr []"
| "internalize_array reviver i (x # xs) =
     (case internalize reviver (decimal i) x of
        Inl err \<Rightarrow> Inl err
      | Inr y \<Rightarrow>
          (case internalize_array reviver (Suc i) xs of
             Inl err \<Rightarrow> Inl err
           | Inr ys \<Rightarrow> Inr (y # ys)))"
| "internalize_object reviver [] = Inr []"
| "internalize_object reviver ((k, x) # ps) =
     (case internalize reviver k x of
        Inl err \<Rightarrow> Inl err
      | Inr y \<Rightarrow>
          (case internalize_object reviver ps of
             Inl err \<Rightarrow> Inl err
           | Inr qs \<Rightarrow> Inr (if y = VUndefined then qs else (k, y) # qs)))"


definition JSON_stringify :: "jsval \<Rightarrow> jsval" where
  "JSON_stringify v = (case serialize [] v of None \<Rightarrow> VUndefined | Some doc \<Rightarrow> doc)"

definition JSON_parse :: "(string \<Rightarrow> jsval \<Rightarrow> exn + jsval) \<Rightarrow> jsval \<Rightarrow> exn + jsval" where
  "JSON_parse reviver doc = (if doc = VUndefined then Inl SyntaxError else internalize reviver [] doc)"

section \<open>The application state\<close>

text \<open>
  The fields of \<^verbatim>\<open>App\<close> (several sources) and what its methods act on outside it:
  \<^item> \<open>editor_set\<close>: the values handed to \<^verbatim>\<open>this.editor.set\<close>, oldest first;
  \<^item> \<open>filtersGroups\<close>: the elements of the array of groups, \<open>None\<close> where it has a
    hole or a null;
  \<^item> \<open>filtersGroups_props\<close>: the properties of that array that are no elements, which an
    assignment \<^verbatim>\<open>this.filtersGroups[v] = g\<close> creates when \<open>v\<close> is negative, NaN
    or null;
  \<^item> \<open>activeFilterGroup\<close>: whatever was last assigned, in range or not;
  \<^item> \<open>localStorage\<close>: the item \<^verbatim>\<open>jfs\<close>, when there is one;
  \<^item> \<open>console\<close>: the errors written by \<^verbatim>\<open>console.error\<close> or
    \<^verbatim>\<open>console.log\<close> in a \<^verbatim>\<open>catch\<close>, and the exceptions no handler catches;
  \<^item> \<open>alerts\<close>: the messages of \<^verbatim>\<open>alert\<close>.
  Building the page (lists, options, dialogs) is left out.
\<close>

record Source =
  source_url :: string
  source_id :: string

record Content =
  content_id :: string
  content_data :: jsval

record App =
  editor_set :: "jsval list"
  sources :: "Source list"
  content :: "Content list"
  filtersGroups :: "Filter list option list"
  filtersGroups_props :: "(string \<times> Filter list) list"
  activeFilterGroup :: jsindex
  localStorage :: "jsval option"
  console :: "exn list"
  alerts :: "string list"

definition App_new :: "jsval option \<Rightarrow> App" where
  "App_new stored =
     \<lparr>editor_set = [], sources = [], content = [], filtersGroups = [],
      filtersGroups_props = [], activeFilterGroup = Index 0, localStorage = stored,
      console = [], alerts = []\<rparr>"

text \<open>An exception \<open>err\<close> ends a handler in state \<open>app\<close> and is logged.\<close>

definition report :: "App \<Rightarrow> exn \<Rightarrow> App" where
  "report app err = app\<lparr>console := console app @ [err]\<rparr>"

text \<open>
  \<^verbatim>\<open>this.filtersGroups[v]\<close>, read and assigned. An assignment to an element past
  the end extends the array and leaves holes; an assignment under a key that names no
  element sets a property of the array.
\<close>

definition groups_get :: "App \<Rightarrow> jsindex \<Rightarrow> Filter list option" where
  "groups_get app v =
     (case array_index v of
        Some i \<Rightarrow> (if i < length (filtersGroups app) then filtersGroups app ! i else None)
      | None \<Rightarrow> map_of (filtersGroups_props app) (index_key v))"

definition setGroup :: "Filter list option list \<Rightarrow> nat \<Rightarrow> Filter list \<Rightarrow> Filter list option list" where
  "setGroup groups i g =
     (if i < length groups then groups[i := Some g]
      else groups @ replicate (i - length groups) None @ [Some g])"

fun put_prop :: "string \<Rightarrow> 'a \<Rightarrow> (string \<times> 'a) list \<Rightarrow> (string \<times> 'a) list" where
  "put_prop k x [] = [(k, x)]"
| "put_prop k x ((k', x') # ps) = (if k' = k then (k, x) # ps else (k', x') # put_prop k x ps)"

definition groups_set :: "App \<Rightarrow> jsindex \<Rightarrow> Filter list \<Rightarrow> App" where
  "groups_set app v g =
     (case array_index v of
        Some i \<Rightarrow> app\<lparr>filtersGroups := setGroup (filtersGroups app) i g\<rparr>
      | None \<Rightarrow>
          app\<lparr>filtersGroups_props := put_prop (index_key v) g (filtersGroups_props app)\<rparr>)"

fun findIndex :: "('a \<Rightarrow> bool) \<Rightarrow> 'a list \<Rightarrow> nat option" where
  "findIndex P [] = None"
| "findIndex P (x # xs) = (if P x then Some 0 else map_option Suc (findIndex P xs))"

text \<open>\<^verbatim>\<open>xs.splice(idx, 1)\<close>; past the end it removes nothing.\<close>

definition splice1 :: "'a list \<Rightarrow> nat \<Rightarrow> 'a list" where
  "splice1 xs idx = take idx xs @ drop (Suc idx) xs"

text \<open>
  \<^verbatim>\<open>process\<close>: \<open>Inl err\<close> when a step function throws (nothing has been changed
  by then), otherwise the state after it, with one more value handed to the viewer unless a
  select step returned early.
\<close>

definition process :: "engine \<Rightarrow> App \<Rightarrow> exn + App" where
  "process eng app =
     (let data = VArr (map content_data (content app));
          filters = groups_at (filtersGroups app) (activeFilterGroup app)
      in case (case filters of
                 None \<Rightarrow> Inr (Some data)
               | Some fs \<Rightarrow> process_filters eng data fs) of
           Inl err \<Rightarrow> Inl err
         | Inr None \<Rightarrow> Inr app
         | Inr (Some d) \<Rightarrow> Inr (app\<lparr>editor_set := editor_set app @ [d]\<rparr>))"

subsection \<open>Persistence\<close>

text \<open>
  The objects \<^verbatim>\<open>JSON.stringify\<close> walks, with their properties in the order the code
  creates them, and the reading of a parsed document as typed fields (the cast in
  \<^verbatim>\<open>load\<close>). A document that does not have the shape \<^verbatim>\<open>save\<close> writes has no
  counterpart in the typed state: \<^verbatim>\<open>load\<close> ends with a TypeError for it.
\<close>

definition Source_to_js :: "Source \<Rightarrow> jsval" where
  "Source_to_js s = VObj [(''url'', VStr (source_url s)), (''id'', VStr (source_id s))]"

definition Filter_to_js :: "Filter \<Rightarrow> jsval" where
  "Filter_to_js f =
     VObj ([(''id'', VStr (filter_id f)), (''type'', VStr (filter_type f)),
            (''func'', VFun (filter_func f))]
           @ (case filter_editor f of None \<Rightarrow> [] | Some t \<Rightarrow> [(''editor'', VHost)]))"

definition group_to_js :: "Filter list option \<Rightarrow> jsval" where
  "group_to_js g = (case g of None \<Rightarrow> VNull | Some fs \<Rightarrow> VArr (map Filter_to_js fs))"

text \<open>The active index as \<^verbatim>\<open>JSON.stringify\<close> writes it: null for NaN.\<close>

fun index_to_js :: "jsindex \<Rightarrow> jsval" where
  "index_to_js (Index n) = VNum n"
| "index_to_js NaN = VNull"
| "index_to_js Null = VNull"

definition save :: "App \<Rightarrow> App" where
  "save app =
     app\<lparr>localStorage := Some (JSON_stringify (VObj
        [(''sources'', VArr (map Source_to_js (sources app))),
         (''filters'', VArr (map group_to_js (filtersGroups app))),
         (''active'', index_to_js (activeFilterGroup app))]))\<rparr>"

definition Source_of_js :: "jsval \<Rightarrow> Source option" where
  "Source_of_js v =
     (case v of
        VObj ps \<Rightarrow>
          (case (map_of ps ''url'', map_of ps ''id'') of
             (Some (VStr u), Some (VStr i)) \<Rightarrow> Some \<lparr>source_url = u, source_id = i\<rparr>
           | _ \<Rightarrow> None)
      | _ \<Rightarrow> None)"

definition Filter_of_js :: "jsval \<Rightarrow> Filter option" where
  "Filter_of_js v =
     (case v of
        VObj ps \<Rightarrow>
          (case (map_of ps ''id'', map_of ps ''type'', map_of ps ''func'') of
             (Some (VStr i), Some (VStr t), Some (VFun f)) \<Rightarrow>
               Some \<lparr>filter_id = i, filter_editor = None, filter_type = t, filter_func = f\<rparr>
           | _ \<Rightarrow> None)
      | _ \<Rightarrow> None)"

definition group_of_js :: "jsval \<Rightarrow> Filter list option option" where
  "group_of_js v =
     (case v of
        VNull \<Rightarrow> Some None
      | VArr xs \<Rightarrow> map_option Some (those (map Filter_of_js xs))
      | _ \<Rightarrow> None)"

definition groups_of_js :: "jsval \<Rightarrow> Filter list option list option" where
  "groups_of_js v = (case v of VArr gs \<Rightarrow> those (map group_of_js gs) | _ \<Rightarrow> None)"

definition sources_of_js :: "jsval \<Rightarrow> Source list option" where
  "sources_of_js v = (case v of VArr xs \<Rightarrow> those (map Source_of_js xs) | _ \<Rightarrow> None)"

definition active_of_js :: "jsval \<Rightarrow> jsindex option" where
  "active_of_js v = (case v of VNum n \<Rightarrow> Some (Index n) | VNull \<Rightarrow> Some Null | _ \<Rightarrow> None)"

text \<open>
  \<^verbatim>\<open>load\<close>, with the outcome of the fetches as a parameter: \<open>fetch url\<close> is the
  document at \<open>url\<close>, or \<open>None\<close> when the request or its parsing fails. \<open>Inl err\<close>
  is a rejected \<^verbatim>\<open>load\<close>.
\<close>

definition load :: "engine \<Rightarrow> (string \<Rightarrow> jsval option) \<Rightarrow> App \<Rightarrow> exn + App" where
  "load eng fetch app =
     (case localStorage app of
        None \<Rightarrow> Inr app
      | Some state \<Rightarrow>
          (case JSON_parse (desterilizeFunction eng) state of
             Inl err \<Rightarrow> Inl err
           | Inr data \<Rightarrow>
               (case (groups_of_js (get_property (inherited eng) data (VStr ''filters'')),
                      active_of_js (get_property (inherited eng) data (VStr ''active'')),
                      sources_of_js (get_property (inherited eng) data (VStr ''sources''))) of
                  (Some groups, Some active, Some srcs) \<Rightarrow>
                    (let app1 = app\<lparr>filtersGroups := groups, filtersGroups_props := [],
                                     activeFilterGroup := active, sources := srcs\<rparr>
                     in case those (map (\<lambda>e. map_option
                                       (\<lambda>item. \<lparr>content_id = source_id e, content_data = item\<rparr>)
                                       (fetch (source_url e))) srcs) of
                          None \<Rightarrow>
                            Inr (app1\<lparr>console := console app1 @ [FetchError],
                                      alerts := alerts app1 @ [''Failed to load sources'']\<rparr>)
                        | Some items \<Rightarrow>
                            (let app2 = app1\<lparr>content := items\<rparr>
                             in case process eng app2 of
                                  Inl err \<Rightarrow>
                                    Inr (app2\<lparr>console := console app2 @ [err],
                                              alerts := alerts app2 @ [''Failed to load sources'']\<rparr>)
                                | Inr app3 \<Rightarrow> Inr app3))
                | _ \<Rightarrow> Inl TypeError)))"

subsection \<open>Group and step handlers\<close>

text \<open>
  \<^verbatim>\<open>updateDisplay\<close> gives every step of the active group a fresh editor holding the
  body text of its function. It finds the steps with \<^verbatim>\<open>filtersGroups.at(v)\<close> and
  installs each editor through \<^verbatim>\<open>filtersGroups[v]\<close>, which for a negative index, NaN
  or null is another group or none: with none, the first step throws a TypeError
  (\<open>updateDisplay_editors\<close> is that second loop). The same two ways of reaching the
  active group are kept apart in every handler. The handlers the code leaves anonymous are
  named here:
  \<open>filter_type_change\<close> (a step's kind selector, for the step with id \<open>fid\<close> and the
  selected value \<open>v\<close>) and \<open>filter_remove_click\<close> (a step's X button).
  \<open>handleFilterChange\<close> runs when the debounce timer of an editor fires;
  \<open>selectFilterGroupChange\<close> takes the value \<^verbatim>\<open>parseInt\<close> returns for the group
  selector's text; in \<open>handleFilterChange\<close> the function is compiled before the
  assignment finds its target step missing;
  \<open>bntFiltersAdd\<close> takes the fresh id \<^verbatim>\<open>crypto.randomUUID()\<close> returns (the body
  \<^verbatim>\<open>return e;\<close> of the new step is well-formed, so its constructor does not throw).
\<close>

fun updateDisplay_editors :: "Filter list \<Rightarrow> Filter list option \<Rightarrow> exn + Filter list option" where
  "updateDisplay_editors [] target = Inr target"
| "updateDisplay_editors (flt # rest) target =
     (case target of
        None \<Rightarrow> Inl TypeError
      | Some g \<Rightarrow>
          updateDisplay_editors rest
            (Some (case findIndex (\<lambda>e. filter_id e = filter_id flt) g of
                     None \<Rightarrow> g
                   | Some idx \<Rightarrow>
                       g[idx := (g ! idx)\<lparr>filter_editor :=
                                  Some (getFunctionContent (filter_func flt))\<rparr>])))"

definition updateDisplay :: "App \<Rightarrow> exn + App" where
  "updateDisplay app =
     (case groups_at (filtersGroups app) (activeFilterGroup app) of
        None \<Rightarrow> Inr app
      | Some filters \<Rightarrow>
          (case updateDisplay_editors filters (groups_get app (activeFilterGroup app)) of
             Inl err \<Rightarrow> Inl err
           | Inr None \<Rightarrow> Inr app
           | Inr (Some g) \<Rightarrow> Inr (groups_set app (activeFilterGroup app) g)))"

definition handleFilterChange :: "engine \<Rightarrow> nat \<Rightarrow> App \<Rightarrow> App" where
  "handleFilterChange eng index app =
     (case groups_at (filtersGroups app) (activeFilterGroup app) of
        None \<Rightarrow> app
      | Some g \<Rightarrow>
          (if \<not> index < length g then app
           else (let v = (case filter_editor (g ! index) of
                            None \<Rightarrow> ''undefined''
                          | Some t \<Rightarrow> t)
                 in case groups_get app (activeFilterGroup app) of
                      None \<Rightarrow> report app TypeError
                    | Some target \<Rightarrow>
                        (case new_Function eng [''e'', ''idx'', ''list''] v of
                           Inl err \<Rightarrow> report app err
                         | Inr f \<Rightarrow>
                             (if \<not> index < length target then report app TypeError
                              else (let app1 = groups_set app (activeFilterGroup app)
                                                 (target[index := (target ! index)\<lparr>filter_func := f\<rparr>])
                                    in case process eng app1 of
                                         Inl err \<Rightarrow> report app1 err
                                       | Inr app2 \<Rightarrow> save app2))))))"

definition filter_type_change :: "engine \<Rightarrow> string \<Rightarrow> string \<Rightarrow> App \<Rightarrow> App" where
  "filter_type_change eng fid v app =
     (case groups_at (filtersGroups app) (activeFilterGroup app) of
        None \<Rightarrow> app
      | Some g \<Rightarrow>
          (case findIndex (\<lambda>e. filter_id e = fid) g of
             None \<Rightarrow> app
           | Some idx \<Rightarrow>
               (if v = [] then app
                else (case groups_get app (activeFilterGroup app) of
                        None \<Rightarrow> report app TypeError
                      | Some target \<Rightarrow>
                          (if \<not> idx < length target then report app TypeError
                           else (let app1 = groups_set app (activeFilterGroup app)
                                              (target[idx := (target ! idx)\<lparr>filter_type := v\<rparr>])
                                 in case process eng app1 of
                                      Inl err \<Rightarrow> report app1 err
                                    | Inr app2 \<Rightarrow> app2))))))"

definition filter_remove_click :: "engine \<Rightarrow> string \<Rightarrow> App \<Rightarrow> App" where
  "filter_remove_click eng fid app =
     (case groups_get app (activeFilterGroup app) of
        None \<Rightarrow> app
      | Some g \<Rightarrow>
          (let app1 = groups_set app (activeFilterGroup app) (filter (\<lambda>e. filter_id e \<noteq> fid) g)
           in case updateDisplay app1 of
                Inl err \<Rightarrow> report app1 err
              | Inr app2 \<Rightarrow>
                  (case process eng app2 of
                     Inl err \<Rightarrow> report app2 err
                   | Inr app3 \<Rightarrow> app3)))"

definition selectFilterGroupChange :: "engine \<Rightarrow> jsindex \<Rightarrow> App \<Rightarrow> App" where
  "selectFilterGroupChange eng v app =
     (let app1 = app\<lparr>activeFilterGroup := v\<rparr>
      in case updateDisplay app1 of
           Inl err \<Rightarrow> report app1 err
         | Inr app2 \<Rightarrow>
             (case process eng app2 of
                Inl err \<Rightarrow> report app2 err
              | Inr app3 \<Rightarrow> save app3))"

definition btnFiltersReset :: "App \<Rightarrow> App" where
  "btnFiltersReset app =
     (case groups_get app (activeFilterGroup app) of
        None \<Rightarrow> app
      | Some g \<Rightarrow>
          (let app1 = groups_set app (activeFilterGroup app) []
           in case updateDisplay app1 of
                Inl err \<Rightarrow> report app1 err
              | Inr app2 \<Rightarrow> save app2))"

definition bntFiltersAdd :: "engine \<Rightarrow> string \<Rightarrow> App \<Rightarrow> App" where
  "bntFiltersAdd eng uuid app =
     (let g = (case groups_get app (activeFilterGroup app) of
                 None \<Rightarrow> []
               | Some fs \<Rightarrow> fs);
          app1 = groups_set app (activeFilterGroup app)
                   (g @ [\<lparr>filter_id = uuid, filter_editor = None, filter_type = ''select'',
                          filter_func = Function [''e'', ''idx'', ''list''] ''return e;''\<rparr>])
      in case updateDisplay app1 of
           Inl err \<Rightarrow> report app1 err
         | Inr app2 \<Rightarrow>
             (case process eng app2 of
                Inl err \<Rightarrow> report app2 err
              | Inr app3 \<Rightarrow> save app3))"

definition btnFilterGroupAdd :: "engine \<Rightarrow> App \<Rightarrow> App" where
  "btnFilterGroupAdd eng app =
     (let groups = filtersGroups app @ [Some []];
          idx = int (length groups) - 1;
          app1 = app\<lparr>filtersGroups := groups, activeFilterGroup := Index idx\<rparr>
      in case updateDisplay app1 of
           Inl err \<Rightarrow> report app1 err
         | Inr app2 \<Rightarrow>
             (case process eng app2 of
                Inl err \<Rightarrow> report app2 err
              | Inr app3 \<Rightarrow> save app3))"

definition btnFitlerGroupDel :: "App \<Rightarrow> App" where
  "btnFitlerGroupDel app = save app"

subsection \<open>Source handlers\<close>

text \<open>
  Each form handler is split at its fetch: \<open>_submit\<close> is the part that runs at once
  (\<open>contentId\<close> is the fresh id), \<open>_fetched\<close> the callback that runs when the fetch
  settles, with \<open>Some item\<close> for the parsed document and \<open>None\<close> for a failure.
  \<open>source_remove_click\<close> is the X button of a source.
\<close>

definition dialogForm_submit :: "string \<Rightarrow> string \<Rightarrow> App \<Rightarrow> App" where
  "dialogForm_submit input contentId app =
     (let source = trim input
      in if source = [] then app
         else app\<lparr>sources := sources app @ [\<lparr>source_url = source, source_id = contentId\<rparr>]\<rparr>)"

definition dialogForm_fetched :: "engine \<Rightarrow> string \<Rightarrow> jsval option \<Rightarrow> App \<Rightarrow> App" where
  "dialogForm_fetched eng contentId response app =
     (case response of
        None \<Rightarrow> app\<lparr>console := console app @ [FetchError],
                    alerts := alerts app @ [''Failed to load source'']\<rparr>
      | Some item \<Rightarrow>
          (let app1 = app\<lparr>content := content app @ [\<lparr>content_id = contentId, content_data = item\<rparr>]\<rparr>
           in case process eng app1 of
                Inl err \<Rightarrow> app1\<lparr>console := console app1 @ [err],
                                alerts := alerts app1 @ [''Failed to load source'']\<rparr>
              | Inr app2 \<Rightarrow> save app2))"

definition dialogEditForm_submit :: "string \<Rightarrow> string \<Rightarrow> App \<Rightarrow> App" where
  "dialogEditForm_submit ident input app =
     (let url = trim input
      in if ident = [] \<or> url = [] then app
         else (case findIndex (\<lambda>e. source_id e = ident) (sources app) of
                 None \<Rightarrow> app
               | Some idx \<Rightarrow>
                   app\<lparr>sources := (sources app)[idx := (sources app ! idx)\<lparr>source_url := url\<rparr>]\<rparr>))"

definition dialogEditForm_fetched :: "engine \<Rightarrow> string \<Rightarrow> jsval option \<Rightarrow> App \<Rightarrow> App" where
  "dialogEditForm_fetched eng ident response app =
     (case response of
        None \<Rightarrow> app\<lparr>console := console app @ [FetchError],
                    alerts := alerts app @ [''Failed to load source'']\<rparr>
      | Some item \<Rightarrow>
          (case findIndex (\<lambda>e. content_id e = ident) (content app) of
             None \<Rightarrow> app
           | Some contentIdx \<Rightarrow>
               (let app1 = app\<lparr>content := (content app)[contentIdx :=
                                  (content app ! contentIdx)\<lparr>content_data := item\<rparr>]\<rparr>
                in case process eng app1 of
                     Inl err \<Rightarrow> app1\<lparr>console := console app1 @ [err],
                                     alerts := alerts app1 @ [''Failed to load source'']\<rparr>
                   | Inr app2 \<Rightarrow> save app2)))"

definition source_remove_click :: "engine \<Rightarrow> string \<Rightarrow> App \<Rightarrow> App" where
  "source_remove_click eng ident app =
     (if ident = [] then app
      else (case findIndex (\<lambda>e. source_id e = ident) (sources app) of
              None \<Rightarrow> app
            | Some idx \<Rightarrow>
                (let app1 = app\<lparr>sources := splice1 (sources app) idx,
                                 content := splice1 (content app) idx\<rparr>
                 in case process eng app1 of
                      Inl err \<Rightarrow> report app1 err
                    | Inr app2 \<Rightarrow> save app2)))"

section \<open>A host for the examples\<close>

text \<open>
  What a JavaScript engine does with six bodies, for the parameters \<open>e\<close>, \<open>idx\<close>,
  \<open>list\<close>, and what objects and arrays inherit from \<^verbatim>\<open>Object.prototype\<close> and
  \<^verbatim>\<open>Array.prototype\<close>: the engine the examples run on. A missing argument is
  undefined.
\<close>

definition arg :: "jsval list \<Rightarrow> nat \<Rightarrow> jsval" where
  "arg args i = (if i < length args then args ! i else VUndefined)"

definition Object_prototype_methods :: "string list" where
  "Object_prototype_methods =
     [''__defineGetter__'', ''__defineSetter__'', ''__lookupGetter__'', ''__lookupSetter__'',
      ''hasOwnProperty'', ''isPrototypeOf'', ''propertyIsEnumerable'', ''toLocaleString'',
      ''toString'', ''valueOf'']"

definition Array_prototype_methods :: "string list" where
  "Array_prototype_methods =
     [''at'', ''concat'', ''copyWithin'', ''entries'', ''every'', ''fill'', ''filter'', ''find'',
      ''findIndex'', ''findLast'', ''findLastIndex'', ''flat'', ''flatMap'', ''forEach'',
      ''includes'', ''indexOf'', ''join'', ''keys'', ''lastIndexOf'', ''map'', ''pop'', ''push'',
      ''reduce'', ''reduceRight'', ''reverse'', ''shift'', ''slice'', ''some'', ''sort'',
      ''splice'', ''toLocaleString'', ''toReversed'', ''toSorted'', ''toSpliced'', ''toString'',
      ''unshift'', ''values'', ''with'']"

definition fragment_inherited :: "jsval \<Rightarrow> string \<Rightarrow> jsval" where
  "fragment_inherited data k =
     (case data of
        VObj ps \<Rightarrow>
          (if k = ''constructor'' then VNative ''Object''
           else if k = ''__proto__'' then VHost
           else if k \<in> set Object_prototype_methods then VNative k
           else VUndefined)
      | VArr xs \<Rightarrow>
          (if k = ''constructor'' then VNative ''Array''
           else if k = ''__proto__'' then VHost
           else if k \<in> set Array_prototype_methods then VNative k
           else if k \<in> set Object_prototype_methods then VNative k
           else VUndefined)
      | _ \<Rightarrow> VUndefined)"

definition known_bodies :: "string list" where
  "known_bodies =
     [''return e;'', ''return e.x;'', ''return 0;'', ''return false;'', ''throw 1;'',
      ''return 'constructor';'']"

definition fragment_engine :: engine where
  "fragment_engine =
     \<lparr>parses = (\<lambda>ps b. b \<in> set known_bodies),
      run = (\<lambda>ps b args.
        if ps \<noteq> [''e'', ''idx'', ''list''] then Inl SyntaxError
        else if b = ''return e;'' then Inr (arg args 0)
        else if b = ''return e.x;'' then
          (case arg args 0 of
             VUndefined \<Rightarrow> Inl TypeError
           | VNull \<Rightarrow> Inl TypeError
           | v \<Rightarrow> Inr (get_property fragment_inherited v (VStr ''x'')))
        else if b = ''return 0;'' then Inr (VNum 0)
        else if b = ''return false;'' then Inr (VBool False)
        else if b = ''throw 1;'' then Inl (Thrown (VNum 1))
        else if b = ''return 'constructor';'' then Inr (VStr ''constructor'')
        else Inl SyntaxError),
      inherited = fragment_inherited\<rparr>"

text \<open>Steps, sources, content items and states for the examples.\<close>

definition step :: "string \<Rightarrow> string \<Rightarrow> string \<Rightarrow> Filter" where
  "step ident kind b =
     \<lparr>filter_id = ident, filter_editor = None, filter_type = kind,
      filter_func = Function [''e'', ''idx'', ''list''] b\<rparr>"

definition app_of :: "Source list \<Rightarrow> Content list \<Rightarrow> Filter list option list \<Rightarrow> nat \<Rightarrow> App" where
  "app_of srcs items groups active =
     \<lparr>editor_set = [], sources = srcs, content = items, filtersGroups = groups,
      filtersGroups_props = [], activeFilterGroup = Index (int active), localStorage = None,
      console = [], alerts = []\<rparr>"

definition item :: "string \<Rightarrow> jsval \<Rightarrow> Content" where
  "item ident v = \<lparr>content_id = ident, content_data = v\<rparr>"

definition src :: "string \<Rightarrow> Source" where
  "src ident = \<lparr>source_url = ''https://host/'' @ ident @ ''.json'', source_id = ident\<rparr>"

text \<open>A step without its editor: what persists of it, and what a reader of the pipeline sees.\<close>

definition without_editor :: "Filter \<Rightarrow> Filter" where
  "without_editor f = f\<lparr>filter_editor := None\<rparr>"

definition steps_of :: "Filter list option list \<Rightarrow> Filter list option list" where
  "steps_of groups = map (map_option (map without_editor)) groups"



text \<open>Two groups, the first active, with the empty array on display.\<close>

definition two_groups_app :: App where
  "two_groups_app = (app_of [src ''a''] [item ''a'' (VNum 7)]
      [Some [step ''f1'' ''filter'' ''return false;''], Some []] 0)\<lparr>editor_set := [VArr []]\<rparr>"

text \<open>
  Source \<open>b\<close> is added and loaded, source \<open>a\<close> is added and, with its fetch still
  under way, removed.
\<close>

definition removed_source_app :: App where
  "removed_source_app =
     source_remove_click fragment_engine ''a''
       (dialogForm_submit ''https://host/a.json'' ''a''
          (dialogForm_fetched fragment_engine ''b'' (Some (VNum 2))
             (dialogForm_submit ''https://host/b.json'' ''b'' (App_new None))))"

text \<open>
  Two sources are added, \<open>a\<close> before \<open>b\<close>, and the fetch of \<open>b\<close> resolves
  before the fetch of \<open>a\<close>.
\<close>

definition late_first_app :: App where
  "late_first_app =
     dialogForm_fetched fragment_engine ''a'' (Some (VNum 1))
       (dialogForm_fetched fragment_engine ''b'' (Some (VNum 2))
          (dialogForm_submit ''https://host/b.json'' ''b''
             (dialogForm_submit ''https://host/a.json'' ''a'' (App_new None))))"

text \<open>
  One source whose document is \<open>{x: 5}\<close>, and one group of one map step with the body
  \<^verbatim>\<open>return e.x;\<close>, open in its editor.
\<close>

definition map_step_app :: App where
  "map_step_app = app_of [src ''a''] [item ''a'' (VObj [(''x'', VNum 5)])]
     [Some [(step ''f1'' ''map'' ''return e.x;'')\<lparr>filter_editor := Some ''return e.x;''\<rparr>]] 0"

section \<open>The codec on the functions the application builds\<close>

lemma indexOf_append_notin: "c \<notin> set p \<Longrightarrow> indexOf (p @ c # r) c = int (length p)"
  by (induction p) (auto simp: Let_def)

lemma lastIndexOf_snoc: "lastIndexOf (p @ [c]) c = int (length p)"
  by (simp add: lastIndexOf_def)

lemma dropWhile_snoc_space:
  assumes "P c"
  shows "dropWhile P (rev (dropWhile P (b @ [c]))) = dropWhile P (rev (dropWhile P b))"
proof (cases "\<forall>x\<in>set b. P x")
  case True
  then have e: "dropWhile P b = []" by simp
  from True assms have d: "dropWhile P (b @ [c]) = []" by simp
  show ?thesis unfolding e d by simp
next
  case False
  then have "dropWhile P (b @ [c]) = dropWhile P b @ [c]"
    by (auto simp: dropWhile_append)
  with assms show ?thesis by simp
qed

lemma trim_newlines: "trim (newline # b @ [newline]) = trim b"
  by (simp add: trim_def dropWhile_snoc_space is_space_def newline_def)

lemma slice_between:
  assumes "c \<notin> set p"
  shows "slice (p @ c # m @ [d]) (indexOf (p @ c # m @ [d]) c + 1) (lastIndexOf (p @ c # m @ [d]) d) = m"
proof -
  have i: "indexOf (p @ c # m @ [d]) c = int (length p)"
    using assms by (rule indexOf_append_notin)
  have "lastIndexOf ((p @ c # m) @ [d]) d = int (length (p @ c # m))"
    by (rule lastIndexOf_snoc)
  then have l: "lastIndexOf (p @ c # m @ [d]) d = int (length p) + 1 + int (length m)"
    by simp
  have n: "nat (int (length p) + 1) = Suc (length p)" by simp
  show ?thesis
    unfolding i l by (simp add: slice_def Let_def n)
qed

lemma getFunctionContent_step: "getFunctionContent (Function [''e'', ''idx'', ''list''] b) = trim b"
proof -
  define p where "p = ''function anonymous(e,idx,list'' @ [newline] @ '') ''"
  have notin: "CHR ''{'' \<notin> set p" by (simp add: p_def newline_def)
  have txt_eq: "Function_toString (Function [''e'', ''idx'', ''list''] b) = p @ CHR ''{'' # (newline # b @ [newline]) @ [CHR ''}'']"
    by (simp add: Function_toString_def p_def)
  show ?thesis
    unfolding getFunctionContent_def getFunctionContent_text_def txt_eq slice_between [OF notin]
    by (rule trim_newlines)
qed

section \<open>Reaching the active group\<close>

lemma groups_at_Index:
  "groups_at groups (Index (int i)) = (if i < length groups then groups ! i else None)"
  by (simp add: groups_at_def Let_def)

lemma groups_get_Index:
  "groups_get app (Index (int i)) =
     (if i < length (filtersGroups app) then filtersGroups app ! i else None)"
  by (simp add: groups_get_def)

lemma groups_set_Index:
  "groups_set app (Index (int i)) g = app\<lparr>filtersGroups := setGroup (filtersGroups app) i g\<rparr>"
  by (simp add: groups_set_def)

lemma groups_at_0: "groups_at (g # groups) (Index 0) = g"
  using groups_at_Index [of "g # groups" 0] by simp

section \<open>The pipeline executor: the fold and its two failure modes\<close>

lemma process_filters_append:
  "process_filters eng d (xs @ ys) =
     (case process_filters eng d xs of
        Inl err \<Rightarrow> Inl err
      | Inr None \<Rightarrow> Inr None
      | Inr (Some d') \<Rightarrow> process_filters eng d' ys)"
  by (induction xs arbitrary: d) (simp_all split: sum.splits)

text \<open>
  C1. The run seeds \<open>data\<close> with the array of the loaded content values and goes
  through the steps of the active group from left to right. When the steps before \<open>flt\<close>
  have produced \<open>d\<close>: a filter, map or flatmap step met with a \<open>d\<close> that is not an
  array is skipped, and the run goes on with \<open>d\<close> and the remaining steps; a select
  step met with a \<open>d\<close> that is null or not of object type ends the run at once, and
  the state, with the list of values handed to the viewer, is what it was.
\<close>

theorem process_fold_asymmetry:
  assumes grp: "groups_at (filtersGroups app) (activeFilterGroup app) = Some (pre @ flt # rest)"
    and reach: "process_filters eng (VArr (map content_data (content app))) pre = Inr (Some d)"
  shows "(filter_type flt \<in> {''filter'', ''map'', ''flatmap''} \<and> \<not> Array_isArray d \<longrightarrow>
            process eng app =
              (case process_filters eng d rest of
                 Inl err \<Rightarrow> Inl err
               | Inr None \<Rightarrow> Inr app
               | Inr (Some r) \<Rightarrow> Inr (app\<lparr>editor_set := editor_set app @ [r]\<rparr>)))
       \<and> (filter_type flt = ''select'' \<and> (d = VNull \<or> typeof d \<noteq> ''object'') \<longrightarrow>
            process eng app = Inr app)"
proof -
  have run: "process_filters eng (VArr (map content_data (content app))) (pre @ flt # rest) =
      process_filters eng d (flt # rest)"
    by (simp add: process_filters_append reach)
  have skip: "process_filters eng d (flt # rest) = process_filters eng d rest"
    if "filter_type flt \<in> {''filter'', ''map'', ''flatmap''}" "\<not> Array_isArray d"
    using that by auto
  have halt: "process_filters eng d (flt # rest) = Inr None"
    if "filter_type flt = ''select''" "d = VNull \<or> typeof d \<noteq> ''object''"
    using that by auto
  show ?thesis
    by (auto simp: process_def grp run skip halt simp del: process_filters.simps)
qed


theorem process_fold_asymmetry_witness:
  "process fragment_engine
       (app_of [src ''a''] [item ''a'' (VNum 7)]
          [Some [step ''f1'' ''select'' ''return 0;'', step ''f2'' ''map'' ''return e.x;'',
                 step ''f3'' ''filter'' ''return false;'']] 0)
     = Inr ((app_of [src ''a''] [item ''a'' (VNum 7)]
          [Some [step ''f1'' ''select'' ''return 0;'', step ''f2'' ''map'' ''return e.x;'',
                 step ''f3'' ''filter'' ''return false;'']] 0)\<lparr>editor_set := [VNum 7]\<rparr>)
   \<and> process fragment_engine
       (app_of [src ''a''] [item ''a'' (VNum 7)]
          [Some [step ''f1'' ''select'' ''return 0;'', step ''f2'' ''select'' ''return 0;'',
                 step ''f3'' ''map'' ''return e;'']] 0)
     = Inr (app_of [src ''a''] [item ''a'' (VNum 7)]
          [Some [step ''f1'' ''select'' ''return 0;'', step ''f2'' ''select'' ''return 0;'',
                 step ''f3'' ''map'' ''return e;'']] 0)"
proof -
  let ?pre = "[step ''f1'' ''select'' ''return 0;'']"
  let ?a = "app_of [src ''a''] [item ''a'' (VNum 7)]
          [Some [step ''f1'' ''select'' ''return 0;'', step ''f2'' ''map'' ''return e.x;'',
                 step ''f3'' ''filter'' ''return false;'']] 0"
  let ?b = "app_of [src ''a''] [item ''a'' (VNum 7)]
          [Some [step ''f1'' ''select'' ''return 0;'', step ''f2'' ''select'' ''return 0;'',
                 step ''f3'' ''map'' ''return e;'']] 0"
  have zero: "decimal 0 = ''0''" by code_simp
  have key: "get_property inh (VArr [VNum 7]) (VNum 0) = VNum 7" for inh
    by (simp add: get_property_def Number_toString_def zero)
  have reach: "process_filters fragment_engine (VArr [VNum 7]) ?pre = Inr (Some (VNum 7))"
    by (simp add: step_def call_def fragment_engine_def key)
  have ga: "groups_at (filtersGroups ?a) (activeFilterGroup ?a) =
      Some (?pre @ step ''f2'' ''map'' ''return e.x;'' # [step ''f3'' ''filter'' ''return false;''])"
    by (simp add: app_of_def groups_at_0)
  have gb: "groups_at (filtersGroups ?b) (activeFilterGroup ?b) =
      Some (?pre @ step ''f2'' ''select'' ''return 0;'' # [step ''f3'' ''map'' ''return e;''])"
    by (simp add: app_of_def groups_at_0)
  have ra: "process_filters fragment_engine (VArr (map content_data (content ?a))) ?pre = Inr (Some (VNum 7))"
    using reach by (simp add: app_of_def item_def)
  have rb: "process_filters fragment_engine (VArr (map content_data (content ?b))) ?pre = Inr (Some (VNum 7))"
    using reach by (simp add: app_of_def item_def)
  have "process fragment_engine ?a = Inr (?a\<lparr>editor_set := [VNum 7]\<rparr>)"
    using process_fold_asymmetry [OF ga ra] by (simp add: step_def app_of_def)
  moreover have "process fragment_engine ?b = Inr ?b"
    using process_fold_asymmetry [OF gb rb] by (simp add: step_def)
  ultimately show ?thesis by simp
qed

section \<open>A select step that finds no property\<close>









section \<open>Frames of the handlers\<close>

lemma editor_update_steps:
  "map without_editor (g[idx := (g ! idx)\<lparr>filter_editor := t\<rparr>]) = map without_editor g"
  by (cases "idx < length g")
    (auto simp: nth_list_update without_editor_def list_update_beyond intro!: nth_equalityI)

lemma updateDisplay_editors_Some:
  "\<exists>g'. updateDisplay_editors fs (Some g) = Inr (Some g')
       \<and> map without_editor g' = map without_editor g"
proof (induction fs arbitrary: g)
  case Nil
  then show ?case by simp
next
  case (Cons f fs)
  let ?g = "case findIndex (\<lambda>e. filter_id e = filter_id f) g of
              None \<Rightarrow> g
            | Some idx \<Rightarrow> g[idx := (g ! idx)\<lparr>filter_editor := Some (getFunctionContent (filter_func f))\<rparr>]"
  have same: "map without_editor ?g = map without_editor g"
    by (simp add: editor_update_steps split: option.splits)
  from Cons.IH [of ?g] obtain g' where
    "updateDisplay_editors fs (Some ?g) = Inr (Some g')"
    "map without_editor g' = map without_editor ?g"
    by blast
  with same show ?case by simp
qed

lemma updateDisplay_editors_None:
  "updateDisplay_editors fs None = (if fs = [] then Inr None else Inl TypeError)"
  by (cases fs) simp_all

lemma groups_set_frame:
  "activeFilterGroup (groups_set app v g) = activeFilterGroup app"
  "editor_set (groups_set app v g) = editor_set app"
  "localStorage (groups_set app v g) = localStorage app"
  "console (groups_set app v g) = console app"
  "alerts (groups_set app v g) = alerts app"
  "sources (groups_set app v g) = sources app"
  "content (groups_set app v g) = content app"
  by (simp_all add: groups_set_def split: option.splits)

lemma steps_of_groups_set:
  assumes "groups_get app v = Some g" and "map without_editor g' = map without_editor g"
  shows "steps_of (filtersGroups (groups_set app v g')) = steps_of (filtersGroups app)"
proof (cases "array_index v")
  case None
  then show ?thesis by (simp add: groups_set_def)
next
  case (Some i)
  with assms(1) have i: "i < length (filtersGroups app)" and g: "filtersGroups app ! i = Some g"
    by (auto simp: groups_get_def split: if_splits)
  show ?thesis
    using Some i g assms(2)
    by (simp add: groups_set_def steps_of_def setGroup_def map_update list_eq_iff_nth_eq
        nth_list_update)
qed

lemma updateDisplay_frame:
  assumes "updateDisplay app = Inr app'"
  shows "activeFilterGroup app' = activeFilterGroup app"
    "editor_set app' = editor_set app"
    "localStorage app' = localStorage app"
    "console app' = console app"
    "alerts app' = alerts app"
    "sources app' = sources app"
    "content app' = content app"
  using assms
  by (auto simp: updateDisplay_def groups_set_frame split: option.splits sum.splits)

lemma updateDisplay_steps:
  assumes "updateDisplay app = Inr app'"
  shows "steps_of (filtersGroups app') = steps_of (filtersGroups app)"
proof (cases "groups_at (filtersGroups app) (activeFilterGroup app)")
  case None
  with assms show ?thesis by (simp add: updateDisplay_def)
next
  case (Some fs)
  show ?thesis
  proof (cases "groups_get app (activeFilterGroup app)")
    case None
    with Some assms show ?thesis
      by (auto simp: updateDisplay_def updateDisplay_editors_None split: if_splits)
  next
    case (Some g)
    obtain g' where e: "updateDisplay_editors fs (Some g) = Inr (Some g')"
      and s: "map without_editor g' = map without_editor g"
      using updateDisplay_editors_Some by blast
    from assms \<open>groups_at (filtersGroups app) (activeFilterGroup app) = Some fs\<close> Some e
    have "app' = groups_set app (activeFilterGroup app) g'"
      by (simp add: updateDisplay_def)
    with steps_of_groups_set [OF Some s] show ?thesis by simp
  qed
qed

lemma process_frame:
  assumes "process eng app = Inr app'"
  shows "filtersGroups app' = filtersGroups app" "activeFilterGroup app' = activeFilterGroup app"
    "localStorage app' = localStorage app" "console app' = console app" "alerts app' = alerts app"
    "sources app' = sources app" "content app' = content app"
  using assms by (auto simp: process_def Let_def split: sum.splits option.splits)

lemma save_frame:
  "filtersGroups (save app) = filtersGroups app" "activeFilterGroup (save app) = activeFilterGroup app"
  "editor_set (save app) = editor_set app" "console (save app) = console app"
  "alerts (save app) = alerts app" "sources (save app) = sources app" "content (save app) = content app"
  by (simp_all add: save_def)

lemma report_frame:
  "filtersGroups (report app err) = filtersGroups app" "activeFilterGroup (report app err) = activeFilterGroup app"
  "editor_set (report app err) = editor_set app" "localStorage (report app err) = localStorage app"
  "alerts (report app err) = alerts app" "sources (report app err) = sources app" "content (report app err) = content app"
  by (simp_all add: report_def)

lemma updateDisplay_no_group:
  "groups_at (filtersGroups app) (activeFilterGroup app) = None \<Longrightarrow> updateDisplay app = Inr app"
  by (simp add: updateDisplay_def)

lemma updateDisplay_no_target:
  "groups_at (filtersGroups app) (activeFilterGroup app) = Some (flt # rest) \<Longrightarrow>
   groups_get app (activeFilterGroup app) = None \<Longrightarrow> updateDisplay app = Inl TypeError"
  by (simp add: updateDisplay_def)

lemma process_no_group:
  "groups_at (filtersGroups app) (activeFilterGroup app) = None \<Longrightarrow>
   process eng app = Inr (app\<lparr>editor_set := editor_set app @ [VArr (map content_data (content app))]\<rparr>)"
  by (simp add: process_def)

lemma groups_at_past_end: "int (length groups) \<le> n \<Longrightarrow> groups_at groups (Index n) = None"
  by (simp add: groups_at_def Let_def)

lemma display_process_save_active:
  "activeFilterGroup
     (case updateDisplay a of
        Inl err \<Rightarrow> report a err
      | Inr a2 \<Rightarrow> (case process eng a2 of Inl err \<Rightarrow> report a2 err | Inr a3 \<Rightarrow> save a3))
   = activeFilterGroup a"
proof (cases "updateDisplay a")
  case (Inl err)
  then show ?thesis by (simp add: report_frame)
next
  case (Inr a2)
  note u = updateDisplay_frame(1) [OF Inr]
  show ?thesis
  proof (cases "process eng a2")
    case (Inl err)
    with Inr u show ?thesis by (simp add: report_frame)
  next
    case (Inr a3)
    with \<open>updateDisplay a = Inr a2\<close> u process_frame(2) [OF Inr] show ?thesis
      by (simp add: save_frame)
  qed
qed

lemma display_process_save_steps:
  "steps_of (filtersGroups
     (case updateDisplay a of
        Inl err \<Rightarrow> report a err
      | Inr a2 \<Rightarrow> (case process eng a2 of Inl err \<Rightarrow> report a2 err | Inr a3 \<Rightarrow> save a3)))
   = steps_of (filtersGroups a)"
proof (cases "updateDisplay a")
  case (Inl err)
  then show ?thesis by (simp add: report_frame)
next
  case (Inr a2)
  note u = updateDisplay_steps [OF Inr]
  show ?thesis
  proof (cases "process eng a2")
    case (Inl err)
    with Inr u show ?thesis by (simp add: report_frame)
  next
    case (Inr a3)
    with \<open>updateDisplay a = Inr a2\<close> u process_frame(1) [OF Inr] show ?thesis
      by (simp add: save_frame)
  qed
qed

lemma groups_get_active_update [simp]:
  "groups_get (app\<lparr>activeFilterGroup := v\<rparr>) w = groups_get app w"
  by (cases "array_index w") (simp_all add: groups_get_def)

lemma select_no_group:
  assumes "groups_at (filtersGroups app) v = None"
  shows "selectFilterGroupChange eng v app =
          save (app\<lparr>activeFilterGroup := v,
                     editor_set := editor_set app @ [VArr (map content_data (content app))]\<rparr>)"
proof -
  let ?a = "app\<lparr>activeFilterGroup := v\<rparr>"
  from assms have none: "groups_at (filtersGroups ?a) (activeFilterGroup ?a) = None"
    by simp
  show ?thesis
    by (simp add: selectFilterGroupChange_def updateDisplay_no_group [OF none]
        process_no_group [OF none])
qed

lemma select_no_target:
  assumes "groups_at (filtersGroups app) v = Some (flt # rest)" and "groups_get app v = None"
  shows "selectFilterGroupChange eng v app = report (app\<lparr>activeFilterGroup := v\<rparr>) TypeError"
proof -
  let ?a = "app\<lparr>activeFilterGroup := v\<rparr>"
  from assms have "groups_at (filtersGroups ?a) (activeFilterGroup ?a) = Some (flt # rest)"
    and "groups_get ?a (activeFilterGroup ?a) = None"
    by simp_all
  then have "updateDisplay ?a = Inl TypeError"
    by (rule updateDisplay_no_target)
  then show ?thesis
    by (simp add: selectFilterGroupChange_def)
qed

lemma two_groups_app_fields:
  "filtersGroups two_groups_app = [Some [step ''f1'' ''filter'' ''return false;''], Some []]"
  "filtersGroups_props two_groups_app = []"
  "activeFilterGroup two_groups_app = Index 0"
  "editor_set two_groups_app = [VArr []]"
  "content two_groups_app = [item ''a'' (VNum 7)]"
  "console two_groups_app = []"
  "alerts two_groups_app = []"
  by (simp_all add: two_groups_app_def app_of_def)

lemma two_groups_app_at:
  "groups_at (filtersGroups two_groups_app) (Index 5) = None"
  "groups_at (filtersGroups two_groups_app) (Index (- 2)) = Some (step ''f1'' ''filter'' ''return false;'' # [])"
  "groups_get two_groups_app (Index (- 2)) = None"
  by (simp_all add: two_groups_app_fields groups_at_def groups_get_def)

text \<open>
  C4 (amended). Setting the active group to the value \<open>v\<close> the selector's text parses to
  (an integer, in range or not, or NaN) stores \<open>v\<close> and leaves the steps of every group
  as they were (only editors are rebuilt); an index at or past the end is a case of the
  next sentence. When \<^verbatim>\<open>filtersGroups.at(v)\<close> finds no group, nothing is thrown or
  reported: the run hands the unfiltered content array to the viewer, and the state is
  saved. When \<^verbatim>\<open>filtersGroups.at(v)\<close> finds a group with steps and
  \<^verbatim>\<open>filtersGroups[v]\<close> is undefined, as for a negative index counted from the end,
  \<^verbatim>\<open>updateDisplay\<close> throws a TypeError, which the handler logs; the run and the save
  are skipped.
\<close>

theorem selectFilterGroupChange_stores_index:
  "activeFilterGroup (selectFilterGroupChange eng v app) = v
   \<and> steps_of (filtersGroups (selectFilterGroupChange eng v app)) = steps_of (filtersGroups app)
   \<and> (int (length (filtersGroups app)) \<le> n \<longrightarrow>
        groups_at (filtersGroups app) (Index n) = None)
   \<and> (groups_at (filtersGroups app) v = None \<longrightarrow>
        selectFilterGroupChange eng v app =
          save (app\<lparr>activeFilterGroup := v,
                     editor_set := editor_set app @ [VArr (map content_data (content app))]\<rparr>))
   \<and> (groups_at (filtersGroups app) v = Some (flt # rest) \<and> groups_get app v = None \<longrightarrow>
        selectFilterGroupChange eng v app = report (app\<lparr>activeFilterGroup := v\<rparr>) TypeError)"
proof -
  have 1: "activeFilterGroup (selectFilterGroupChange eng v app) = v"
    using display_process_save_active [of "app\<lparr>activeFilterGroup := v\<rparr>" eng]
    by (simp add: selectFilterGroupChange_def Let_def)
  have 2: "steps_of (filtersGroups (selectFilterGroupChange eng v app)) = steps_of (filtersGroups app)"
    using display_process_save_steps [of "app\<lparr>activeFilterGroup := v\<rparr>" eng]
    by (simp add: selectFilterGroupChange_def Let_def)
  show ?thesis
    using 1 2 groups_at_past_end [of "filtersGroups app" n] select_no_group [of app v eng]
      select_no_target [of app v flt rest eng]
    by (intro conjI impI) (assumption | (elim conjE, assumption))+
qed

theorem selectFilterGroupChange_stores_index_witness:
  "selectFilterGroupChange fragment_engine (Index 5) two_groups_app =
     save (two_groups_app\<lparr>activeFilterGroup := Index 5, editor_set := [VArr [], VArr [VNum 7]]\<rparr>)
   \<and> selectFilterGroupChange fragment_engine (Index (- 2)) two_groups_app =
     report (two_groups_app\<lparr>activeFilterGroup := Index (- 2)\<rparr>) TypeError
   \<and> activeFilterGroup (selectFilterGroupChange fragment_engine (Index 1) two_groups_app) = Index 1
   \<and> steps_of (filtersGroups (selectFilterGroupChange fragment_engine (Index 1) two_groups_app))
       = steps_of (filtersGroups two_groups_app)"
proof -
  note five = selectFilterGroupChange_stores_index
    [where eng = fragment_engine and v = "Index 5" and app = two_groups_app and n = 5]
  note minus = selectFilterGroupChange_stores_index
    [where eng = fragment_engine and v = "Index (- 2)" and app = two_groups_app
       and flt = "step ''f1'' ''filter'' ''return false;''" and rest = "[]"]
  note one = selectFilterGroupChange_stores_index
    [where eng = fragment_engine and v = "Index 1" and app = two_groups_app]
  have len: "int (length (filtersGroups two_groups_app)) \<le> 5"
    by (simp add: two_groups_app_fields)
  have none: "groups_at (filtersGroups two_groups_app) (Index 5) = None"
    using five [THEN conjunct2, THEN conjunct2, THEN conjunct1] len by (rule mp)
  have a: "selectFilterGroupChange fragment_engine (Index 5) two_groups_app =
     save (two_groups_app\<lparr>activeFilterGroup := Index 5,
        editor_set := editor_set two_groups_app @ [VArr (map content_data (content two_groups_app))]\<rparr>)"
    using five [THEN conjunct2, THEN conjunct2, THEN conjunct2, THEN conjunct1] none by (rule mp)
  have wrap: "groups_at (filtersGroups two_groups_app) (Index (- 2)) =
      Some (step ''f1'' ''filter'' ''return false;'' # [])
      \<and> groups_get two_groups_app (Index (- 2)) = None"
    by (simp add: two_groups_app_at)
  have b: "selectFilterGroupChange fragment_engine (Index (- 2)) two_groups_app =
     report (two_groups_app\<lparr>activeFilterGroup := Index (- 2)\<rparr>) TypeError"
    using minus [THEN conjunct2, THEN conjunct2, THEN conjunct2, THEN conjunct2] wrap by (rule mp)
  have c: "activeFilterGroup (selectFilterGroupChange fragment_engine (Index 1) two_groups_app) = Index 1"
    by (rule one [THEN conjunct1])
  have d: "steps_of (filtersGroups (selectFilterGroupChange fragment_engine (Index 1) two_groups_app))
       = steps_of (filtersGroups two_groups_app)"
    by (rule one [THEN conjunct2, THEN conjunct1])
  have e: "editor_set two_groups_app @ [VArr (map content_data (content two_groups_app))]
      = [VArr [], VArr [VNum 7]]"
    by (simp add: two_groups_app_fields item_def)
  show ?thesis
    using a b c d unfolding e by (intro conjI)
qed

text \<open>
  C4 as stated fails: with two groups, the index 5 becomes the active index, no error is
  logged or alerted, and the viewer is handed a new value; the index -2 becomes the active
  index as well, and the error that is logged there is a TypeError of \<^verbatim>\<open>updateDisplay\<close>.
\<close>

theorem selectFilterGroupChange_counterexample:
  "int (length (filtersGroups two_groups_app)) \<le> 5
   \<and> activeFilterGroup two_groups_app = Index 0
   \<and> activeFilterGroup (selectFilterGroupChange fragment_engine (Index 5) two_groups_app) = Index 5
   \<and> console (selectFilterGroupChange fragment_engine (Index 5) two_groups_app) = []
   \<and> alerts (selectFilterGroupChange fragment_engine (Index 5) two_groups_app) = []
   \<and> editor_set two_groups_app = [VArr []]
   \<and> editor_set (selectFilterGroupChange fragment_engine (Index 5) two_groups_app) = [VArr [], VArr [VNum 7]]
   \<and> activeFilterGroup (selectFilterGroupChange fragment_engine (Index (- 2)) two_groups_app) = Index (- 2)
   \<and> console (selectFilterGroupChange fragment_engine (Index (- 2)) two_groups_app) = [TypeError]"
proof -
  have five: "selectFilterGroupChange fragment_engine (Index 5) two_groups_app =
     save (two_groups_app\<lparr>activeFilterGroup := Index 5,
        editor_set := editor_set two_groups_app @ [VArr (map content_data (content two_groups_app))]\<rparr>)"
    by (rule select_no_group) (rule two_groups_app_at)
  have minus: "selectFilterGroupChange fragment_engine (Index (- 2)) two_groups_app =
     report (two_groups_app\<lparr>activeFilterGroup := Index (- 2)\<rparr>) TypeError"
    by (rule select_no_target) (rule two_groups_app_at)+
  show ?thesis
    unfolding five minus
    by (simp add: save_frame report_def two_groups_app_fields item_def)
qed

text \<open>
  C9. The handler of the group-deletion button removes nothing: groups, active index,
  sources, content, the viewer and the logs are as before, and the stored document is the
  one \<open>save\<close> writes for that unchanged state.
\<close>

theorem btnFitlerGroupDel_frame:
  "filtersGroups (btnFitlerGroupDel app) = filtersGroups app
   \<and> activeFilterGroup (btnFitlerGroupDel app) = activeFilterGroup app
   \<and> sources (btnFitlerGroupDel app) = sources app
   \<and> content (btnFitlerGroupDel app) = content app
   \<and> editor_set (btnFitlerGroupDel app) = editor_set app
   \<and> console (btnFitlerGroupDel app) = console app
   \<and> alerts (btnFitlerGroupDel app) = alerts app
   \<and> btnFitlerGroupDel app = app\<lparr>localStorage := localStorage (save app)\<rparr>"
  by (simp add: btnFitlerGroupDel_def save_def)

section \<open>The single-source run on falsy content\<close>

text \<open>
  C10. In the single-source variant a falsy content value (undefined, null, false, 0, the
  empty string) makes the run return before any step and without a call of the viewer,
  whatever the groups and the active index are; in particular the run over an empty group
  does not hand the content back.
\<close>

theorem process_single_falsy_content:
  assumes "\<not> truthy c"
  shows "process_single eng c groups active = Inr None
         \<and> process_single eng c groups active \<noteq> Inr (Some c)"
  using assms by (simp add: process_single_def)

theorem process_single_falsy_content_witness:
  "process_single fragment_engine VNull [Some []] (Index 0) = Inr None
   \<and> process_single fragment_engine (VBool False) [Some []] (Index 0) = Inr None
   \<and> process_single fragment_engine (VNum 0) [Some []] (Index 0) = Inr None
   \<and> process_single fragment_engine (VStr []) [Some []] (Index 0) = Inr None
   \<and> process_single fragment_engine VUndefined [Some []] (Index 0) = Inr None"
proof -
  have "\<not> truthy VNull" "\<not> truthy (VBool False)" "\<not> truthy (VNum 0)" "\<not> truthy (VStr [])"
    "\<not> truthy VUndefined"
    by simp_all
  then show ?thesis
    using process_single_falsy_content by blast
qed

section \<open>Decoding a step function\<close>

text \<open>
  C7 as stated fails: the parameters of a decoded function are named \<open>e\<close>, \<open>idx\<close>
  and \<open>list\<close>, not \<open>element\<close>, \<open>index\<close> and \<open>list\<close>.
\<close>

theorem desterilizeFunction_params_counterexample:
  "desterilizeFunction fragment_engine ''func'' (VStr ''return e;'')
     = Inr (VFun (Function [''e'', ''idx'', ''list''] ''return e;''))
   \<and> params (Function [''e'', ''idx'', ''list''] ''return e;'') \<noteq> [''element'', ''index'', ''list'']"
  by (simp add: desterilizeFunction_def new_Function_def fragment_engine_def known_bodies_def)

text \<open>
  C7 (amended). For a body text the engine accepts, the reviver builds, under the key
  \<open>func\<close>, the function with the three parameters \<open>e\<close>, \<open>idx\<close>, \<open>list\<close> in
  that order and that text as its body; for a text the engine rejects it throws the
  constructor's SyntaxError. The constructor call is the one \<open>handleFilterChange\<close>
  makes on the text of an editor.
\<close>

theorem desterilizeFunction_decode:
  "desterilizeFunction eng ''func'' (VStr b) =
     (if parses eng [''e'', ''idx'', ''list''] b
      then Inr (VFun (Function [''e'', ''idx'', ''list''] b))
      else Inl SyntaxError)
   \<and> params (Function [''e'', ''idx'', ''list''] b) = [''e'', ''idx'', ''list'']
   \<and> body (Function [''e'', ''idx'', ''list''] b) = b
   \<and> call eng (Function [''e'', ''idx'', ''list''] b) args = run eng [''e'', ''idx'', ''list''] b args
   \<and> new_Function eng [''e'', ''idx'', ''list''] b =
     (if parses eng [''e'', ''idx'', ''list''] b
      then Inr (Function [''e'', ''idx'', ''list''] b)
      else Inl SyntaxError)"
  by (simp add: desterilizeFunction_def new_Function_def call_def)

section \<open>Handlers that miss the run or the save\<close>

lemma btnFiltersReset_editor_set: "editor_set (btnFiltersReset app) = editor_set app"
proof (cases "groups_get app (activeFilterGroup app)")
  case None
  then show ?thesis by (simp add: btnFiltersReset_def)
next
  case (Some g)
  let ?a = "groups_set app (activeFilterGroup app) []"
  show ?thesis
  proof (cases "updateDisplay ?a")
    case (Inl err)
    with Some show ?thesis
      by (simp add: btnFiltersReset_def report_frame groups_set_frame)
  next
    case (Inr a2)
    with Some updateDisplay_frame(2) [OF Inr] show ?thesis
      by (simp add: btnFiltersReset_def save_frame groups_set_frame)
  qed
qed

lemma process_or_report_localStorage:
  "localStorage (case process eng a of Inl err \<Rightarrow> report a err | Inr a2 \<Rightarrow> a2) = localStorage a"
  by (cases "process eng a") (simp_all add: report_frame process_frame(3))

lemma filter_type_change_localStorage:
  "localStorage (filter_type_change eng fid v app) = localStorage app"
  by (simp add: filter_type_change_def Let_def report_frame groups_set_frame
      process_or_report_localStorage split: option.splits)

lemma filter_remove_click_localStorage:
  "localStorage (filter_remove_click eng fid app) = localStorage app"
proof (cases "groups_get app (activeFilterGroup app)")
  case None
  then show ?thesis by (simp add: filter_remove_click_def)
next
  case (Some g)
  let ?a = "groups_set app (activeFilterGroup app) (filter (\<lambda>e. filter_id e \<noteq> fid) g)"
  show ?thesis
  proof (cases "updateDisplay ?a")
    case (Inl err)
    with Some show ?thesis
      by (simp add: filter_remove_click_def report_frame groups_set_frame)
  next
    case (Inr a2)
    with Some updateDisplay_frame(3) [OF Inr] process_or_report_localStorage [where eng = eng and a = a2]
    show ?thesis
      by (simp add: filter_remove_click_def groups_set_frame)
  qed
qed

lemma put_prop_same: "map_of ps k = Some x \<Longrightarrow> put_prop k x ps = ps"
  by (induction ps) (auto split: if_splits)

lemma groups_set_same:
  assumes "groups_get app v = Some g"
  shows "groups_set app v g = app"
proof (cases "array_index v")
  case None
  with assms show ?thesis
    by (simp add: groups_get_def groups_set_def put_prop_same)
next
  case (Some i)
  with assms have i: "i < length (filtersGroups app)" and g: "filtersGroups app ! i = Some g"
    by (auto simp: groups_get_def split: if_splits)
  have "(filtersGroups app)[i := Some g] = filtersGroups app"
    using g by (metis list_update_id)
  with Some i show ?thesis
    by (simp add: groups_set_def setGroup_def)
qed

lemma updateDisplay_empty_group:
  assumes "groups_at (filtersGroups app) (activeFilterGroup app) = Some []"
  shows "updateDisplay app = Inr app"
  using assms
  by (cases "groups_get app (activeFilterGroup app)") (simp_all add: updateDisplay_def groups_set_same)

lemma btnFiltersReset_two_groups_app:
  "btnFiltersReset two_groups_app = save (two_groups_app\<lparr>filtersGroups := [Some [], Some []]\<rparr>)"
proof -
  have g: "groups_get two_groups_app (activeFilterGroup two_groups_app) =
      Some [step ''f1'' ''filter'' ''return false;'']"
    by (simp add: two_groups_app_fields groups_get_def)
  have s: "groups_set two_groups_app (activeFilterGroup two_groups_app) [] =
      two_groups_app\<lparr>filtersGroups := [Some [], Some []]\<rparr>"
    by (simp add: two_groups_app_fields groups_set_def setGroup_def)
  have u: "updateDisplay (two_groups_app\<lparr>filtersGroups := [Some [], Some []]\<rparr>) =
      Inr (two_groups_app\<lparr>filtersGroups := [Some [], Some []]\<rparr>)"
    by (rule updateDisplay_empty_group) (simp add: two_groups_app_fields groups_at_0)
  show ?thesis
    by (simp add: btnFiltersReset_def g s u)
qed

text \<open>
  C3. Three handlers that change the pipeline miss one of the two effects the others
  have. Resetting the steps never calls the viewer: with the filtered result \<open>[]\<close> on
  display, the viewer still shows it after the reset, while a run of the emptied group
  yields the content \<open>[7]\<close>. Changing a step's kind and removing a step never write
  the store.
\<close>

theorem handlers_missing_process_or_save:
  "editor_set (btnFiltersReset app) = editor_set app
   \<and> localStorage (filter_type_change eng fid v app) = localStorage app
   \<and> localStorage (filter_remove_click eng fid app) = localStorage app
   \<and> editor_set (btnFiltersReset two_groups_app) = [VArr []]
   \<and> process fragment_engine (btnFiltersReset two_groups_app) =
        Inr ((btnFiltersReset two_groups_app)\<lparr>editor_set := [VArr [], VArr [VNum 7]]\<rparr>)"
proof -
  have 4: "editor_set (btnFiltersReset two_groups_app) = [VArr []]"
    by (simp add: btnFiltersReset_editor_set two_groups_app_fields)
  have 5: "process fragment_engine (btnFiltersReset two_groups_app) =
        Inr ((btnFiltersReset two_groups_app)\<lparr>editor_set := [VArr [], VArr [VNum 7]]\<rparr>)"
    unfolding btnFiltersReset_two_groups_app
    by (simp add: process_def save_frame groups_at_0 two_groups_app_fields item_def)
  show ?thesis
    by (intro conjI)
      (rule btnFiltersReset_editor_set, rule filter_type_change_localStorage,
        rule filter_remove_click_localStorage, rule 4, rule 5)
qed

section \<open>Late fetch results and removed sources\<close>

lemma findIndex_None_iff: "findIndex P xs = None \<longleftrightarrow> (\<forall>x\<in>set xs. \<not> P x)"
  by (induction xs) auto

lemma dialogEditForm_fetched_no_item:
  "findIndex (\<lambda>e. content_id e = ident) (content app) = None \<Longrightarrow>
   dialogEditForm_fetched eng ident (Some v) app = app"
  by (simp add: dialogEditForm_fetched_def)

lemma trim_url: "trim (''https://host/'' @ i @ ''.json'') = ''https://host/'' @ i @ ''.json''"
  by (simp add: trim_def is_space_def)

lemma dialogForm_submit_src:
  "dialogForm_submit (''https://host/'' @ i @ ''.json'') i app = app\<lparr>sources := sources app @ [src i]\<rparr>"
  unfolding dialogForm_submit_def trim_url by (simp add: src_def)

lemma dialogForm_fetched_no_group:
  "groups_at (filtersGroups app) (activeFilterGroup app) = None \<Longrightarrow>
   dialogForm_fetched eng i (Some v) app =
     save (app\<lparr>content := content app @ [item i v],
               editor_set := editor_set app @ [VArr (map content_data (content app) @ [v])]\<rparr>)"
  by (simp add: dialogForm_fetched_def Let_def process_no_group item_def)

lemma source_remove_click_no_group:
  "groups_at (filtersGroups app) (activeFilterGroup app) = None \<Longrightarrow>
   findIndex (\<lambda>e. source_id e = i) (sources app) = Some idx \<Longrightarrow> i \<noteq> [] \<Longrightarrow>
   source_remove_click eng i app =
     save (app\<lparr>sources := splice1 (sources app) idx, content := splice1 (content app) idx,
               editor_set := editor_set app @ [VArr (map content_data (splice1 (content app) idx))]\<rparr>)"
  by (simp add: source_remove_click_def Let_def process_no_group)

lemma groups_at_Nil: "groups_at [] v = None"
  by (cases v) (simp_all add: groups_at_def)

lemma removed_source_app_fields:
  "sources removed_source_app = [src ''b'']"
  "content removed_source_app = [item ''b'' (VNum 2)]"
  "filtersGroups removed_source_app = []"
  "editor_set removed_source_app = [VArr [VNum 2], VArr [VNum 2]]"
proof -
  let ?s1 = "dialogForm_submit ''https://host/b.json'' ''b'' (App_new None)"
  let ?s2 = "dialogForm_fetched fragment_engine ''b'' (Some (VNum 2)) ?s1"
  let ?s3 = "dialogForm_submit ''https://host/a.json'' ''a'' ?s2"
  have s1: "?s1 = (App_new None)\<lparr>sources := [src ''b'']\<rparr>"
    using dialogForm_submit_src [of "''b''" "App_new None"] by (simp add: App_new_def)
  have f1: "sources ?s1 = [src ''b'']" "content ?s1 = []" "filtersGroups ?s1 = []"
    "editor_set ?s1 = []"
    unfolding s1 by (simp_all add: App_new_def)
  have g1: "groups_at (filtersGroups ?s1) (activeFilterGroup ?s1) = None"
    by (simp add: f1 groups_at_Nil)
  have s2: "?s2 = save (?s1\<lparr>content := content ?s1 @ [item ''b'' (VNum 2)],
      editor_set := editor_set ?s1 @ [VArr (map content_data (content ?s1) @ [VNum 2])]\<rparr>)"
    by (rule dialogForm_fetched_no_group [OF g1])
  have f2: "sources ?s2 = [src ''b'']" "content ?s2 = [item ''b'' (VNum 2)]"
    "filtersGroups ?s2 = []" "editor_set ?s2 = [VArr [VNum 2]]"
    unfolding s2 by (simp_all add: save_frame f1)
  have s3: "?s3 = ?s2\<lparr>sources := sources ?s2 @ [src ''a'']\<rparr>"
    using dialogForm_submit_src [of "''a''" ?s2] by simp
  have f3: "sources ?s3 = [src ''b'', src ''a'']" "content ?s3 = [item ''b'' (VNum 2)]"
    "filtersGroups ?s3 = []" "editor_set ?s3 = [VArr [VNum 2]]"
    unfolding s3 by (simp_all add: f2)
  have g3: "groups_at (filtersGroups ?s3) (activeFilterGroup ?s3) = None"
    by (simp add: f3 groups_at_Nil)
  have idx: "findIndex (\<lambda>e. source_id e = ''a'') (sources ?s3) = Some 1"
    by (simp add: f3 src_def)
  have s4: "removed_source_app =
      save (?s3\<lparr>sources := splice1 (sources ?s3) 1, content := splice1 (content ?s3) 1,
               editor_set := editor_set ?s3 @ [VArr (map content_data (splice1 (content ?s3) 1))]\<rparr>)"
    unfolding removed_source_app_def
    by (rule source_remove_click_no_group [OF g3 idx]) simp
  show "sources removed_source_app = [src ''b'']"
    "content removed_source_app = [item ''b'' (VNum 2)]"
    "filtersGroups removed_source_app = []"
    "editor_set removed_source_app = [VArr [VNum 2], VArr [VNum 2]]"
    unfolding s4 by (simp_all add: save_frame f3 splice1_def item_def)
qed

text \<open>
  C5. A source is removed while its fetch, started by the add dialog, is under way. When
  the fetch resolves, the callback appends the content item all the same: the content then
  holds an item whose id is no source's, and the item shows in the result. The callback of
  the edit dialog, handed the same late result in the same state, drops it.
\<close>

theorem dialogForm_fetched_orphan:
  "sources removed_source_app = [src ''b'']
   \<and> content removed_source_app = [item ''b'' (VNum 2)]
   \<and> content (dialogForm_fetched fragment_engine ''a'' (Some (VNum 1)) removed_source_app)
        = [item ''b'' (VNum 2), item ''a'' (VNum 1)]
   \<and> sources (dialogForm_fetched fragment_engine ''a'' (Some (VNum 1)) removed_source_app)
        = [src ''b'']
   \<and> last (editor_set (dialogForm_fetched fragment_engine ''a'' (Some (VNum 1)) removed_source_app))
        = VArr [VNum 2, VNum 1]
   \<and> dialogEditForm_fetched fragment_engine ''a'' (Some (VNum 1)) removed_source_app
        = removed_source_app"
proof -
  have none: "groups_at (filtersGroups removed_source_app) (activeFilterGroup removed_source_app) = None"
    by (simp add: removed_source_app_fields groups_at_Nil)
  note add = dialogForm_fetched_no_group [OF none, of fragment_engine "''a''" "VNum 1"]
  have c: "content (dialogForm_fetched fragment_engine ''a'' (Some (VNum 1)) removed_source_app)
        = [item ''b'' (VNum 2), item ''a'' (VNum 1)]"
    and s: "sources (dialogForm_fetched fragment_engine ''a'' (Some (VNum 1)) removed_source_app)
        = [src ''b'']"
    and e: "last (editor_set (dialogForm_fetched fragment_engine ''a'' (Some (VNum 1)) removed_source_app))
        = VArr [VNum 2, VNum 1]"
    unfolding add by (simp_all add: save_frame removed_source_app_fields item_def)
  have d: "dialogEditForm_fetched fragment_engine ''a'' (Some (VNum 1)) removed_source_app
        = removed_source_app"
    by (rule dialogEditForm_fetched_no_item) (simp add: removed_source_app_fields item_def)
  show ?thesis
    by (intro conjI)
      (rule removed_source_app_fields(1), rule removed_source_app_fields(2), rule c, rule s,
        rule e, rule d)
qed

lemma late_first_app_fields:
  "sources late_first_app = [src ''a'', src ''b'']"
  "content late_first_app = [item ''b'' (VNum 2), item ''a'' (VNum 1)]"
  "filtersGroups late_first_app = []"
proof -
  let ?s1 = "dialogForm_submit ''https://host/a.json'' ''a'' (App_new None)"
  let ?s2 = "dialogForm_submit ''https://host/b.json'' ''b'' ?s1"
  let ?s3 = "dialogForm_fetched fragment_engine ''b'' (Some (VNum 2)) ?s2"
  have s1: "?s1 = (App_new None)\<lparr>sources := [src ''a'']\<rparr>"
    using dialogForm_submit_src [of "''a''" "App_new None"] by (simp add: App_new_def)
  have s2: "?s2 = (App_new None)\<lparr>sources := [src ''a'', src ''b'']\<rparr>"
    unfolding s1 using dialogForm_submit_src [of "''b''" "(App_new None)\<lparr>sources := [src ''a'']\<rparr>"]
    by (simp add: App_new_def)
  have f2: "sources ?s2 = [src ''a'', src ''b'']" "content ?s2 = []" "filtersGroups ?s2 = []"
    unfolding s2 by (simp_all add: App_new_def)
  have g2: "groups_at (filtersGroups ?s2) (activeFilterGroup ?s2) = None"
    by (simp add: f2 groups_at_Nil)
  have s3: "?s3 = save (?s2\<lparr>content := content ?s2 @ [item ''b'' (VNum 2)],
      editor_set := editor_set ?s2 @ [VArr (map content_data (content ?s2) @ [VNum 2])]\<rparr>)"
    by (rule dialogForm_fetched_no_group [OF g2])
  have f3: "sources ?s3 = [src ''a'', src ''b'']" "content ?s3 = [item ''b'' (VNum 2)]"
    "filtersGroups ?s3 = []"
    unfolding s3 by (simp_all add: save_frame f2)
  have g3: "groups_at (filtersGroups ?s3) (activeFilterGroup ?s3) = None"
    by (simp add: f3 groups_at_Nil)
  have s4: "late_first_app = save (?s3\<lparr>content := content ?s3 @ [item ''a'' (VNum 1)],
      editor_set := editor_set ?s3 @ [VArr (map content_data (content ?s3) @ [VNum 1])]\<rparr>)"
    unfolding late_first_app_def by (rule dialogForm_fetched_no_group [OF g3])
  show "sources late_first_app = [src ''a'', src ''b'']"
    "content late_first_app = [item ''b'' (VNum 2), item ''a'' (VNum 1)]"
    "filtersGroups late_first_app = []"
    unfolding s4 by (simp_all add: save_frame f3)
qed

text \<open>
  C6. Removing a source removes the content item at the source's position, which is the
  source's own item only while the content is in the order of the sources. After the
  fetches of two sources resolved in the other order, removing the first source removes
  the content of the second and keeps its own, an item whose id is no source's.
\<close>

theorem source_remove_click_wrong_item:
  "sources late_first_app = [src ''a'', src ''b'']
   \<and> content late_first_app = [item ''b'' (VNum 2), item ''a'' (VNum 1)]
   \<and> sources (source_remove_click fragment_engine ''a'' late_first_app) = [src ''b'']
   \<and> content (source_remove_click fragment_engine ''a'' late_first_app) = [item ''a'' (VNum 1)]
   \<and> \<not> content_id ` set (content (source_remove_click fragment_engine ''a'' late_first_app))
         \<subseteq> source_id ` set (sources (source_remove_click fragment_engine ''a'' late_first_app))"
proof -
  have none: "groups_at (filtersGroups late_first_app) (activeFilterGroup late_first_app) = None"
    by (simp add: late_first_app_fields groups_at_Nil)
  have idx: "findIndex (\<lambda>e. source_id e = ''a'') (sources late_first_app) = Some 0"
    by (simp add: late_first_app_fields src_def)
  have s: "sources (source_remove_click fragment_engine ''a'' late_first_app) = [src ''b'']"
    and c: "content (source_remove_click fragment_engine ''a'' late_first_app) = [item ''a'' (VNum 1)]"
    by (simp_all add: source_remove_click_no_group [OF none idx] save_frame late_first_app_fields splice1_def)
  show ?thesis
    unfolding s c by (simp add: late_first_app_fields src_def item_def)
qed

section \<open>Saving and loading\<close>

lemma sterilizeFunction_simps:
  "sterilizeFunction k (VObj ps) = (if k = ''editor'' then VUndefined else VObj ps)"
  "sterilizeFunction k (VArr xs) = (if k = ''editor'' then VUndefined else VArr xs)"
  "sterilizeFunction k (VStr s) = (if k = ''editor'' then VUndefined else VStr s)"
  "sterilizeFunction k (VNum n) = (if k = ''editor'' then VUndefined else VNum n)"
  "sterilizeFunction k VNull = (if k = ''editor'' then VUndefined else VNull)"
  "sterilizeFunction k VHost = (if k = ''editor'' then VUndefined else VHost)"
  "sterilizeFunction k (VFun f) =
     (if k = ''func'' then VStr (getFunctionContent f)
      else if k = ''editor'' then VUndefined else VFun f)"
  by (simp_all add: sterilizeFunction_def split: bool.splits)

lemma digit_not_letter: "d < 10 \<Longrightarrow> of_char (digit d) = d + 48"
  by (simp add: digit_def)

lemma decimal_last: "\<exists>xs d. decimal n = xs @ [digit d] \<and> d < 10"
proof (cases "10 \<le> n")
  case True
  then have "decimal n = decimal (n div 10) @ [digit (n mod 10)]"
    by (subst decimal.simps) simp
  then show ?thesis by (metis mod_less_divisor zero_less_numeral)
next
  case False
  then have "decimal n = [] @ [digit n]"
    by (subst decimal.simps) simp
  with False show ?thesis by (metis not_le)
qed

lemma decimal_not_key: "decimal n \<noteq> ''editor''" "decimal n \<noteq> ''func''"
proof -
  obtain xs d where x: "decimal n = xs @ [digit d]" and d: "d < 10"
    using decimal_last by blast
  have c: "of_char (digit d) = d + 48"
    using d by (rule digit_not_letter)
  show "decimal n \<noteq> ''editor''"
  proof
    assume "decimal n = ''editor''"
    with x have "xs @ [digit d] = ''edito'' @ [CHR ''r'']" by simp
    then have "digit d = CHR ''r''" by (simp only: append1_eq_conv)
    then have "(of_char (digit d) :: nat) = of_char (CHR ''r'')" by simp
    with c d show False by simp
  qed
  show "decimal n \<noteq> ''func''"
  proof
    assume "decimal n = ''func''"
    with x have "xs @ [digit d] = ''fun'' @ [CHR ''c'']" by simp
    then have "digit d = CHR ''c''" by (simp only: append1_eq_conv)
    then have "(of_char (digit d) :: nat) = of_char (CHR ''c'')" by simp
    with c d show False by simp
  qed
qed


lemma serialize_Source: "k \<noteq> ''editor'' \<Longrightarrow> serialize k (Source_to_js s) = Some (Source_to_js s)"
  by (simp add: Source_to_js_def sterilizeFunction_simps)

lemma serialize_array_sources: "serialize_array n (map Source_to_js srcs) = map Source_to_js srcs"
  by (induction srcs arbitrary: n)
    (simp_all add: serialize_Source decimal_not_key del: serialize.simps)

lemma trim_return_e_x: "trim ''return e.x;'' = ''return e.x;''"
  by (simp add: trim_def is_space_def)

lemma serialize_map_step:
  "k \<noteq> ''editor'' \<Longrightarrow>
   serialize k (Filter_to_js \<lparr>filter_id = i, filter_editor = ed, filter_type = ''map'',
       filter_func = Function [''e'', ''idx'', ''list''] ''return e.x;''\<rparr>) =
     Some (VObj [(''id'', VStr i), (''type'', VStr ''map''), (''func'', VStr ''return e.x;'')])"
  by (cases ed)
    (simp_all add: Filter_to_js_def sterilizeFunction_simps getFunctionContent_step trim_return_e_x)

lemma save_document:
  assumes "filtersGroups app = [Some [\<lparr>filter_id = i, filter_editor = ed, filter_type = ''map'',
       filter_func = Function [''e'', ''idx'', ''list''] ''return e.x;''\<rparr>]]"
    and "activeFilterGroup app = Index 0"
  shows "localStorage (save app) = Some (VObj
      [(''sources'', VArr (map Source_to_js (sources app))),
       (''filters'', VArr [VArr [VObj [(''id'', VStr i), (''type'', VStr ''map''),
                                        (''func'', VStr ''return e.x;'')]]]),
       (''active'', VNum 0)])"
proof -
  let ?F = "\<lparr>filter_id = i, filter_editor = ed, filter_type = ''map'',
       filter_func = Function [''e'', ''idx'', ''list''] ''return e.x;''\<rparr>"
  let ?O = "VObj [(''id'', VStr i), (''type'', VStr ''map''), (''func'', VStr ''return e.x;'')]"
  have st: "serialize (decimal 0) (Filter_to_js ?F) = Some ?O"
    by (rule serialize_map_step) (rule decimal_not_key)
  have arr: "serialize_array 0 [Filter_to_js ?F] = [?O]"
    by (simp add: st del: serialize.simps)
  have g: "serialize (decimal 0) (group_to_js (Some [?F])) = Some (VArr [?O])"
    unfolding group_to_js_def
    by (subst serialize.simps)
      (simp add: sterilizeFunction_simps decimal_not_key arr
        del: serialize.simps serialize_array.simps)
  have f: "serialize ''filters'' (VArr [group_to_js (Some [\<lparr>filter_id = i, filter_editor = ed,
       filter_type = ''map'', filter_func = Function [''e'', ''idx'', ''list''] ''return e.x;''\<rparr>])]) =
      Some (VArr [VArr [VObj [(''id'', VStr i), (''type'', VStr ''map''), (''func'', VStr ''return e.x;'')]]])"
    by (subst serialize.simps) (simp add: sterilizeFunction_simps g del: serialize.simps)
  have s: "serialize ''sources'' (VArr (map Source_to_js (sources app))) =
      Some (VArr (map Source_to_js (sources app)))"
    by (simp add: sterilizeFunction_simps serialize_array_sources)
  have a: "serialize ''active'' (VNum 0) = Some (VNum 0)"
    by (simp add: sterilizeFunction_simps)
  show ?thesis
    unfolding save_def JSON_stringify_def
    by (subst serialize.simps) (simp add: assms sterilizeFunction_simps s f a del: serialize.simps)
qed

lemma desterilizeFunction_simps:
  "desterilizeFunction eng k (VObj ps) = Inr (VObj ps)"
  "desterilizeFunction eng k (VArr xs) = Inr (VArr xs)"
  "desterilizeFunction eng k (VNum n) = Inr (VNum n)"
  "k \<noteq> ''func'' \<Longrightarrow> desterilizeFunction eng k (VStr t) = Inr (VStr t)"
  "parses eng [''e'', ''idx'', ''list''] t \<Longrightarrow>
     desterilizeFunction eng ''func'' (VStr t) = Inr (VFun (Function [''e'', ''idx'', ''list''] t))"
  by (simp_all add: desterilizeFunction_def new_Function_def split: bool.splits)

lemma internalize_Source:
  "internalize (desterilizeFunction eng) k (Source_to_js s) = Inr (Source_to_js s)"
  by (simp add: Source_to_js_def desterilizeFunction_simps)

lemma internalize_array_sources:
  "internalize_array (desterilizeFunction eng) n (map Source_to_js srcs) = Inr (map Source_to_js srcs)"
  by (induction srcs arbitrary: n) (simp_all add: internalize_Source)

lemma parse_document:
  assumes "parses eng [''e'', ''idx'', ''list''] ''return e.x;''"
  shows "JSON_parse (desterilizeFunction eng) (VObj
      [(''sources'', VArr (map Source_to_js srcs)),
       (''filters'', VArr [VArr [VObj [(''id'', VStr i), (''type'', VStr ''map''),
                                        (''func'', VStr ''return e.x;'')]]]),
       (''active'', VNum 0)]) =
    Inr (VObj
      [(''sources'', VArr (map Source_to_js srcs)),
       (''filters'', VArr [VArr [VObj [(''id'', VStr i), (''type'', VStr ''map''),
            (''func'', VFun (Function [''e'', ''idx'', ''list''] ''return e.x;''))]]]),
       (''active'', VNum 0)])"
  by (simp add: JSON_parse_def desterilizeFunction_simps internalize_array_sources assms)

lemma Source_of_js_to_js: "Source_of_js (Source_to_js s) = Some s"
  by (simp add: Source_of_js_def Source_to_js_def)

lemma those_sources: "those (map Source_of_js (map Source_to_js srcs)) = Some srcs"
  by (induction srcs) (simp_all add: Source_of_js_to_js)

lemma sources_of_js_to_js: "sources_of_js (VArr (map Source_to_js srcs)) = Some srcs"
  unfolding sources_of_js_def by (simp only: jsval.case those_sources)

lemma load_decoded:
  assumes "localStorage app = Some doc"
    and "JSON_parse (desterilizeFunction eng) doc = Inr data"
    and "groups_of_js (get_property (inherited eng) data (VStr ''filters'')) = Some groups"
    and "active_of_js (get_property (inherited eng) data (VStr ''active'')) = Some active"
    and "sources_of_js (get_property (inherited eng) data (VStr ''sources'')) = Some srcs"
  shows "\<exists>app'. load eng fetch app = Inr app' \<and> filtersGroups app' = groups
           \<and> activeFilterGroup app' = active \<and> sources app' = srcs"
  using assms
  by (auto simp: load_def Let_def split: option.splits sum.splits dest: process_frame)


text \<open>
  C2. A state whose groups are one group of one map step with the body
  \<^verbatim>\<open>return e.x;\<close>, and whose active index is 0, is saved; a new session loads
  the stored document. On a host that accepts that body and evaluates it to 5 on the object
  \<open>{x: 5}\<close>, the load succeeds whatever the fetches return, the groups are the saved
  ones (the step with its id, kind and function; its editor is not stored), the active index
  and the sources are the saved ones, and the function of the step, called on \<open>{x: 5}\<close>,
  returns 5.
\<close>

theorem save_load_roundtrip:
  assumes groups: "filtersGroups app = [Some [\<lparr>filter_id = i, filter_editor = ed, filter_type = ''map'',
       filter_func = Function [''e'', ''idx'', ''list''] ''return e.x;''\<rparr>]]"
    and active: "activeFilterGroup app = Index 0"
    and ok: "parses eng [''e'', ''idx'', ''list''] ''return e.x;''"
    and sem: "run eng [''e'', ''idx'', ''list''] ''return e.x;'' [VObj [(''x'', VNum 5)]] = Inr (VNum 5)"
  shows "\<exists>app' f. load eng fetch (App_new (localStorage (save app))) = Inr app'
        \<and> filtersGroups app' = [Some [\<lparr>filter_id = i, filter_editor = None, filter_type = ''map'',
              filter_func = f\<rparr>]]
        \<and> steps_of (filtersGroups app') = steps_of (filtersGroups app)
        \<and> activeFilterGroup app' = activeFilterGroup app
        \<and> sources app' = sources app
        \<and> call eng f [VObj [(''x'', VNum 5)]] = Inr (VNum 5)"
proof -
  let ?f = "Function [''e'', ''idx'', ''list''] ''return e.x;''"
  let ?data = "VObj
      [(''sources'', VArr (map Source_to_js (sources app))),
       (''filters'', VArr [VArr [VObj [(''id'', VStr i), (''type'', VStr ''map''), (''func'', VFun ?f)]]]),
       (''active'', VNum 0)]"
  let ?g = "[Some [\<lparr>filter_id = i, filter_editor = None, filter_type = ''map'', filter_func = ?f\<rparr>]]"
  have stored: "localStorage (App_new (localStorage (save app))) = localStorage (save app)"
    by (simp add: App_new_def)
  have g: "groups_of_js (get_property (inherited eng) ?data (VStr ''filters'')) = Some ?g"
    by (simp add: get_property_def groups_of_js_def group_of_js_def Filter_of_js_def)
  have a: "active_of_js (get_property (inherited eng) ?data (VStr ''active'')) = Some (Index 0)"
    by (simp add: get_property_def active_of_js_def)
  have s: "sources_of_js (get_property (inherited eng) ?data (VStr ''sources'')) = Some (sources app)"
    by (simp add: get_property_def sources_of_js_to_js)
  obtain app' where l: "load eng fetch (App_new (localStorage (save app))) = Inr app'"
    and lg: "filtersGroups app' = ?g" and la: "activeFilterGroup app' = Index 0"
    and ls: "sources app' = sources app"
    using load_decoded [OF stored [unfolded save_document [OF groups active]]
        parse_document [OF ok] g a s, of fetch]
    by (auto simp: save_document [OF groups active])
  have "steps_of (filtersGroups app') = steps_of (filtersGroups app)"
    by (simp add: lg groups steps_of_def without_editor_def)
  moreover have "call eng ?f [VObj [(''x'', VNum 5)]] = Inr (VNum 5)"
    by (simp add: call_def sem)
  ultimately show ?thesis
    using l lg la ls active by auto
qed

theorem save_load_roundtrip_witness:
  "\<exists>app' f. load fragment_engine (\<lambda>u. Some (VObj [(''x'', VNum 5)]))
          (App_new (localStorage (save map_step_app))) = Inr app'
        \<and> filtersGroups app' = [Some [\<lparr>filter_id = ''f1'', filter_editor = None, filter_type = ''map'',
              filter_func = f\<rparr>]]
        \<and> steps_of (filtersGroups app') = steps_of (filtersGroups map_step_app)
        \<and> activeFilterGroup app' = activeFilterGroup map_step_app
        \<and> sources app' = sources map_step_app
        \<and> call fragment_engine f [VObj [(''x'', VNum 5)]] = Inr (VNum 5)"
proof -
  have groups: "filtersGroups map_step_app = [Some [\<lparr>filter_id = ''f1'', filter_editor = Some ''return e.x;'',
       filter_type = ''map'', filter_func = Function [''e'', ''idx'', ''list''] ''return e.x;''\<rparr>]]"
    by (simp add: map_step_app_def app_of_def step_def)
  have active: "activeFilterGroup map_step_app = Index 0"
    by (simp add: map_step_app_def app_of_def)
  have ok: "parses fragment_engine [''e'', ''idx'', ''list''] ''return e.x;''"
    by (simp add: fragment_engine_def known_bodies_def)
  have sem: "run fragment_engine [''e'', ''idx'', ''list''] ''return e.x;'' [VObj [(''x'', VNum 5)]]
      = Inr (VNum 5)"
    by (simp add: fragment_engine_def arg_def get_property_def)
  show ?thesis
    by (rule save_load_roundtrip [OF groups active ok sem])
qed

end
